theory Spec2Isabelle
  imports Complex_Main
begin

section \<open>Numeric helpers of the grasping module\<close>

text \<open>
  The module \<^verbatim>\<open>locobot/robot/grasp_samplers/grasp.py\<close> computes with floating-point
  numbers; they are modelled by the real numbers. The library functions it calls are
  given by their mathematical definitions.
\<close>

text \<open>
  The exceptions that the modelled code can raise. \<open>NotFinite\<close> is not an exception: it
  marks a numpy result that is an infinity or a NaN (see \<open>get_3D_camera\<close> below).
\<close>

datatype exn =
    IndexError
  | RuntimeError
  | LinAlgError
  | AssertionError
  | TransformException
  | NotFinite

text \<open>\<^verbatim>\<open>np.arctan2(y, x)\<close>: the angle of the point \<open>(x, y)\<close>, in \<open>(-pi, pi]\<close>.\<close>

definition arctan2 :: "real \<Rightarrow> real \<Rightarrow> real" where
  "arctan2 y x =
     (if 0 < x then arctan (y / x)
      else if x < 0 \<and> 0 \<le> y then arctan (y / x) + pi
      else if x < 0 \<and> y < 0 then arctan (y / x) - pi
      else if 0 < y then pi / 2
      else if y < 0 then - (pi / 2)
      else 0)"

text \<open>\<^verbatim>\<open>np.deg2rad\<close> and \<^verbatim>\<open>np.sign\<close> (the latter is \<^const>\<open>sgn\<close> on the reals).\<close>

definition deg2rad :: "real \<Rightarrow> real" where
  "deg2rad d = d * pi / 180"

section \<open>Grasp-angle normalisation\<close>

text \<open>
  \<^verbatim>\<open>Grasper.get_grasp_angle\<close>. The pose is a Python list read at the indices 1, 0 and 2;
  a list that is too short raises \<^verbatim>\<open>IndexError\<close>.
\<close>

definition get_grasp_angle :: "real list \<Rightarrow> exn + real" where
  "get_grasp_angle grasp_pose =
     (if length grasp_pose < 3 then Inl IndexError
      else
        let cur_angle = arctan2 (grasp_pose ! 1) (grasp_pose ! 0);
            delta_angle = grasp_pose ! 2 + cur_angle
        in Inr (if delta_angle > pi / 2 then delta_angle - pi
                else if delta_angle < - (pi / 2) then 2 * pi + delta_angle
                else delta_angle))"

section \<open>Depth maps and depth averaging\<close>

text \<open>Module constants.\<close>

definition BB_SIZE :: nat where "BB_SIZE = 5"
definition MAX_DEPTH :: real where "MAX_DEPTH = 3.0"
definition MIN_DEPTH :: real where "MIN_DEPTH = 0.1"
definition DEFAULT_PITCH :: real where "DEFAULT_PITCH = 1.57"

text \<open>
  A depth map is a two-dimensional numpy array: its shape and its cells, addressed by
  row and column.
\<close>

record depth_map =
  nrows :: nat
  ncols :: nat
  cell :: "nat \<Rightarrow> nat \<Rightarrow> real"

text \<open>
  \<^verbatim>\<open>depth[i, j]\<close> for Python integers \<open>i\<close> and \<open>j\<close>: an index from \<open>-n\<close> to \<open>-1\<close> counts
  from the end of its axis, an index outside \<open>[-n, n)\<close> raises \<^verbatim>\<open>IndexError\<close>
  (\<open>None\<close> here, since the only reader swallows the exception).
\<close>

definition axis_index :: "nat \<Rightarrow> int \<Rightarrow> nat option" where
  "axis_index n i =
     (if 0 \<le> i \<and> i < int n then Some (nat i)
      else if - int n \<le> i \<and> i < 0 then Some (nat (i + int n))
      else None)"

definition depth_at :: "depth_map \<Rightarrow> int \<Rightarrow> int \<Rightarrow> real option" where
  "depth_at depth i j =
     (case axis_index (nrows depth) i of
        None \<Rightarrow> None
      | Some r \<Rightarrow>
          (case axis_index (ncols depth) j of
             None \<Rightarrow> None
           | Some c \<Rightarrow> Some (cell depth r c)))"

text \<open>Python's \<^verbatim>\<open>int(x)\<close> on a float: truncation towards zero.\<close>

definition py_int :: "real \<Rightarrow> int" where
  "py_int x = (if 0 \<le> x then \<lfloor>x\<rfloor> else \<lceil>x\<rceil>)"

text \<open>
  The array part of \<^verbatim>\<open>Grasper._process_depth\<close>:
  \<^verbatim>\<open>cur_depth[cur_depth > MAX_DEPTH] = 0.0\<close>.
\<close>

definition process_depth :: "depth_map \<Rightarrow> depth_map" where
  "process_depth cur_depth =
     cur_depth\<lparr>cell := \<lambda>r c. if cell cur_depth r c > MAX_DEPTH then 0 else cell cur_depth r c\<rparr>"

text \<open>
  \<^verbatim>\<open>Grasper._get_z_mean\<close>. \<open>z_sample\<close> is the read inside the \<^verbatim>\<open>try\<close> block at the loop
  indices \<open>i\<close>, \<open>j\<close>; \<open>z_step\<close> is the body of the inner loop on the accumulators
  \<open>(sum_z, nps)\<close>; the two nested \<^verbatim>\<open>for\<close> loops over \<^verbatim>\<open>range(bb * 2)\<close> are folds. The point
  is the two-element list the caller builds.
\<close>

definition z_sample :: "depth_map \<Rightarrow> real \<times> real \<Rightarrow> nat \<Rightarrow> nat \<Rightarrow> nat \<Rightarrow> real option" where
  "z_sample depth pt bb i j =
     depth_at depth (py_int (fst pt - real bb + real i)) (py_int (snd pt - real bb + real j))"

definition z_step :: "depth_map \<Rightarrow> real \<times> real \<Rightarrow> nat \<Rightarrow> nat \<Rightarrow> nat \<Rightarrow> real \<times> nat \<Rightarrow> real \<times> nat" where
  "z_step depth pt bb i j acc =
     (case z_sample depth pt bb i j of
        None \<Rightarrow> acc
      | Some new_z \<Rightarrow> if new_z > MIN_DEPTH then (fst acc + new_z, snd acc + 1) else acc)"

definition z_loop :: "depth_map \<Rightarrow> real \<times> real \<Rightarrow> nat \<Rightarrow> real \<times> nat" where
  "z_loop depth pt bb =
     fold (\<lambda>i. fold (\<lambda>j. z_step depth pt bb i j) [0..<bb * 2]) [0..<bb * 2] (0, 0)"

definition get_z_mean :: "depth_map \<Rightarrow> real \<times> real \<Rightarrow> nat \<Rightarrow> real" where
  "get_z_mean depth pt bb =
     (case z_loop depth pt bb of
        (sum_z, nps) \<Rightarrow> if nps = 0 then 0 else sum_z / real nps)"

text \<open>
  What the loop computes, as a list: the samples in the order the loop reads them, the
  ones it adds up, and their mean.
\<close>

definition z_window :: "depth_map \<Rightarrow> real \<times> real \<Rightarrow> nat \<Rightarrow> real option list" where
  "z_window depth pt bb =
     concat (map (\<lambda>i. map (\<lambda>j. z_sample depth pt bb i j) [0..<bb * 2]) [0..<bb * 2])"

fun summed :: "real option list \<Rightarrow> real list" where
  "summed [] = []"
| "summed (None # zs) = summed zs"
| "summed (Some z # zs) = (if z > MIN_DEPTH then z # summed zs else summed zs)"

definition mean_summed :: "real option list \<Rightarrow> real" where
  "mean_summed zs =
     (if summed zs = [] then 0 else sum_list (summed zs) / real (length (summed zs)))"

text \<open>The cell that a Python index in \<open>[-n, n)\<close> selects on an axis of length \<open>n\<close>.\<close>

definition wrap_index :: "nat \<Rightarrow> int \<Rightarrow> nat" where
  "wrap_index n i = nat (if i < 0 then int n + i else i)"

section \<open>The robot and the trace of commands\<close>

text \<open>
  Attributes set once by \<^verbatim>\<open>Grasper.__init__\<close>, and the frame names of the module.
\<close>

definition pregrasp_height :: real where "pregrasp_height = 0.25"
definition pregrasp_pitch :: real where "pregrasp_pitch = - 0.2"
definition grasp_height :: real where "grasp_height = 0.13"
definition retract_position :: "real list" where "retract_position = [- 1.5, 0.5, 0.3, - 0.7, 0.0]"
definition reset_pan :: real where "reset_pan = 0.0"
definition reset_tilt :: real where "reset_tilt = 0.8"
definition n_tries :: nat where "n_tries = 5"
definition sleep_time :: real where "sleep_time = 3"
definition x_offset :: real where "x_offset = 0.0"
definition y_offset :: real where "y_offset = 0.03"
definition BASE_FRAME :: string where "BASE_FRAME = ''base_link''"
definition KINECT_FRAME :: string where "KINECT_FRAME = ''camera_color_optical_frame''"

text \<open>
  Every command sent to the arm, the gripper and the camera mount, every sleep and the
  image written to the log directory is an event; a command that reports success carries
  the driver's answer as its last argument. \<open>SetJointPositions\<close> also records the
  \<^verbatim>\<open>plan\<close> flag of the call: \<open>False\<close> where the source passes \<^verbatim>\<open>plan=False\<close>, \<open>True\<close> where
  it leaves the flag to the driver. The trace is the list of events in the order they
  happened. Reading a sensor, the clock, a transform or the marker attribute is not an
  event.
\<close>

datatype event =
    GoHome
  | SetJointPositions "real list" bool bool
  | SetEEPosePitchRoll "real list" real real bool
  | GripperOpen
  | GripperClose
  | SetPan real
  | SetTilt real
  | SetPanTilt real real
  | Sleep real
  | SaveImage

type_synonym vec3 = "real \<times> real \<times> real"
type_synonym mat3 = "vec3 \<times> vec3 \<times> vec3"
type_synonym mat34 = "(real \<times> real \<times> real \<times> real) \<times> (real \<times> real \<times> real \<times> real) \<times> (real \<times> real \<times> real \<times> real)"

text \<open>The fields of the latest \<^verbatim>\<open>Marker\<close> message that the module reads.\<close>

record marker =
  stamp_secs :: int
  position :: vec3

text \<open>
  The external collaborators (arm, gripper and camera drivers, the predictor, the
  transform listener, the clock and the marker subscription) are not part of the module.
  Each is a function of the trace so far, so that an answer may depend in any way on what
  has happened before. \<open>marker_data\<close> is the attribute written by the subscriber callback;
  a transform that cannot be resolved is \<open>None\<close> (the listener raises).
  \<open>arm_set_joint_positions\<close> takes the positions and the \<^verbatim>\<open>plan\<close> flag.
\<close>

record robot =
  arm_set_joint_positions :: "event list \<Rightarrow> real list \<Rightarrow> bool \<Rightarrow> bool"
  arm_get_joint_angles :: "event list \<Rightarrow> real list"
  arm_set_ee_pose_pitch_roll :: "event list \<Rightarrow> real list \<Rightarrow> real \<Rightarrow> real \<Rightarrow> bool"
  camera_get_depth :: "event list \<Rightarrow> depth_map"
  camera_P :: "event list \<Rightarrow> mat34"
  grasp_model_predict :: "event list \<Rightarrow> real list"
  marker_data :: "event list \<Rightarrow> marker option"
  time_now_secs :: "event list \<Rightarrow> int"
  transformPoint :: "event list \<Rightarrow> string \<Rightarrow> string \<Rightarrow> vec3 \<Rightarrow> vec3 option"
  lookupTransform :: "event list \<Rightarrow> string \<Rightarrow> string \<Rightarrow> vec3 option"

section \<open>Reset\<close>

text \<open>
  \<^verbatim>\<open>Grasper.reset\<close>: the \<^verbatim>\<open>for\<close> loop with its \<^verbatim>\<open>break\<close>, on the remaining number of
  tries and the variable \<^verbatim>\<open>success\<close>; then the three unconditional commands.
\<close>

fun reset_loop :: "robot \<Rightarrow> nat \<Rightarrow> bool \<Rightarrow> event list \<Rightarrow> bool \<times> event list" where
  "reset_loop rb 0 success tr = (success, tr)"
| "reset_loop rb (Suc n) success tr =
     (let tr1 = tr @ [GoHome];
          s = arm_set_joint_positions rb tr1 retract_position False;
          tr2 = tr1 @ [SetJointPositions retract_position False s]
      in if s then (s, tr2) else reset_loop rb n s tr2)"

definition reset :: "robot \<Rightarrow> event list \<Rightarrow> bool \<times> event list" where
  "reset rb tr =
     (case reset_loop rb n_tries False tr of
        (success, tr1) \<Rightarrow> (success, tr1 @ [GripperOpen, SetPan reset_pan, SetTilt reset_tilt]))"

text \<open>
  The trace at which \<open>reset\<close> sends its retract command for the \<open>(j + 1)\<close>-th time,
  the first \<open>j\<close> attempts having failed.
\<close>

definition reset_attempt :: "event list \<Rightarrow> nat \<Rightarrow> event list" where
  "reset_attempt tr j =
     tr @ concat (replicate j [GoHome, SetJointPositions retract_position False False]) @ [GoHome]"

section \<open>Localisation\<close>

definition det3 :: "mat3 \<Rightarrow> real" where
  "det3 m =
     (case m of ((a, b, c), (d, e, f), (g, h, i)) \<Rightarrow>
        a * (e * i - f * h) - b * (d * i - f * g) + c * (d * h - e * g))"

text \<open>\<^verbatim>\<open>np.linalg.inv\<close> on a 3 by 3 matrix: a singular matrix raises \<^verbatim>\<open>LinAlgError\<close>.\<close>

definition inv3 :: "mat3 \<Rightarrow> exn + mat3" where
  "inv3 m =
     (case m of ((a, b, c), (d, e, f), (g, h, i)) \<Rightarrow>
        let dt = det3 m in
        if dt = 0 then Inl LinAlgError
        else Inr (((e * i - f * h) / dt, (c * h - b * i) / dt, (b * f - c * e) / dt),
                  ((f * g - d * i) / dt, (a * i - c * g) / dt, (c * d - a * f) / dt),
                  ((d * h - e * g) / dt, (b * g - a * h) / dt, (a * e - b * d) / dt)))"

text \<open>\<^verbatim>\<open>np.dot\<close> of a 3 by 3 matrix and a vector.\<close>

definition mat_vec :: "mat3 \<Rightarrow> vec3 \<Rightarrow> vec3" where
  "mat_vec m p =
     (case m of ((a, b, c), (d, e, f), (g, h, i)) \<Rightarrow>
        case p of (x, y, z) \<Rightarrow>
          (a * x + b * y + c * z, d * x + e * y + f * z, g * x + h * y + i * z))"

text \<open>
  The matrix \<open>P_n\<close> of \<^verbatim>\<open>_get_3D_camera\<close>: the first two columns of \<open>P\<close>, then
  \<^verbatim>\<open>P[:, 3] + P[:, 2] * z\<close>.
\<close>

definition P_n_of :: "mat34 \<Rightarrow> real \<Rightarrow> mat3" where
  "P_n_of P z =
     (case P of ((p00, p01, p02, p03), (p10, p11, p12, p13), (p20, p21, p22, p23)) \<Rightarrow>
        ((p00, p01, p03 + p02 * z), (p10, p11, p13 + p12 * z), (p20, p21, p23 + p22 * z)))"

text \<open>
  \<^verbatim>\<open>Grasper._get_3D_camera\<close>. A numpy division by zero raises nothing and gives an
  infinity or a NaN; the model stops there with \<open>NotFinite\<close>, which is therefore not
  an exception of the source but the mark of a result that is not a finite number.
\<close>

definition get_3D_camera :: "robot \<Rightarrow> event list \<Rightarrow> real list \<Rightarrow> real option \<Rightarrow> exn + vec3" where
  "get_3D_camera rb tr pt norm_z =
     (if length pt \<noteq> 2 then Inl AssertionError
      else
        let cur_depth = process_depth (camera_get_depth rb tr);
            z = get_z_mean cur_depth (pt ! 0, pt ! 1) BB_SIZE
        in if z = 0 then Inl RuntimeError
           else
             (case (case norm_z of
                      None \<Rightarrow> Some z
                    | Some n \<Rightarrow> if n = 0 then None else Some (z / n)) of
                None \<Rightarrow> Inl NotFinite
              | Some z \<Rightarrow>
                  let u = pt ! 1;
                      v = pt ! 0;
                      P = camera_P rb tr;
                      P_n = P_n_of P z
                  in (case inv3 P_n of
                        Inl e \<Rightarrow> Inl e
                      | Inr P_n_inv \<Rightarrow>
                          (case mat_vec P_n_inv (u, v, 1) of
                             (x, y, w) \<Rightarrow>
                               if w = 0 then Inl NotFinite else Inr (x / w, y / w, z)))))"

text \<open>\<^verbatim>\<open>Grasper._convert_frames\<close>; the second lookup only feeds the log, but it can raise.\<close>

definition convert_frames :: "robot \<Rightarrow> event list \<Rightarrow> vec3 \<Rightarrow> exn + vec3" where
  "convert_frames rb tr pt =
     (case transformPoint rb tr BASE_FRAME KINECT_FRAME pt of
        None \<Rightarrow> Inl TransformException
      | Some base_ps \<Rightarrow>
          (case lookupTransform rb tr BASE_FRAME KINECT_FRAME of
             None \<Rightarrow> Inl TransformException
           | Some _ \<Rightarrow> Inr base_ps))"

definition get_3D :: "robot \<Rightarrow> event list \<Rightarrow> real list \<Rightarrow> real option \<Rightarrow> exn + vec3" where
  "get_3D rb tr pt z_norm =
     (case get_3D_camera rb tr pt z_norm of
        Inl e \<Rightarrow> Inl e
      | Inr temp_p \<Rightarrow> convert_frames rb tr temp_p)"

text \<open>
  \<^verbatim>\<open>Grasper.compute_grasp\<close>. The predictor's answer is turned into a list, its first two
  entries are shifted by the crop's origin, the slice \<^verbatim>\<open>[:2]\<close> is replaced by the first
  two coordinates of the base-frame point, and entry 2 is read and written back.
\<close>

definition compute_grasp ::
  "robot \<Rightarrow> event list \<Rightarrow> (real \<times> real) \<times> (real \<times> real) \<Rightarrow> bool \<Rightarrow> (exn + real list) \<times> event list" where
  "compute_grasp rb tr dims display_grasp =
     (let selected_grasp = grasp_model_predict rb tr;
          tr1 = (if display_grasp then tr @ [SaveImage] else tr)
      in if length selected_grasp < 2 then (Inl IndexError, tr1)
         else
           let sg0 = selected_grasp[0 := selected_grasp ! 0 + fst (fst dims)];
               sg1 = sg0[1 := sg0 ! 1 + fst (snd dims)]
           in (case get_3D rb tr1 (take 2 sg1) None of
                 Inl e \<Rightarrow> (Inl e, tr1)
               | Inr (x, y, z) \<Rightarrow>
                   let sg2 = [x, y] @ drop 2 sg1
                   in if length sg2 < 3 then (Inl IndexError, tr1) else (Inr sg2, tr1)))"

section \<open>Calibration error\<close>

text \<open>
  The test of the polling loop in \<^verbatim>\<open>Grasper._find_pose_error\<close>:
  \<^verbatim>\<open>self.marker_data is None or (rospy.Time.now().secs - stamp.secs) > 1.0\<close>.
\<close>

definition marker_stale :: "robot \<Rightarrow> event list \<Rightarrow> bool" where
  "marker_stale rb tr =
     (case marker_data rb tr of
        None \<Rightarrow> True
      | Some m \<Rightarrow> time_now_secs rb tr - stamp_secs m > 1)"

text \<open>\<^verbatim>\<open>joint_angles[0] -= np.deg2rad(2) * np.sign(joint_angles[0])\<close>\<close>

definition nudge_base :: "real list \<Rightarrow> real list" where
  "nudge_base joint_angles =
     joint_angles[0 := joint_angles ! 0 - deg2rad 2 * sgn (joint_angles ! 0)]"

text \<open>The polling loop \<^verbatim>\<open>for _ in range(5)\<close>, on the remaining number of polls.\<close>

fun poll_loop :: "robot \<Rightarrow> nat \<Rightarrow> real list \<Rightarrow> event list \<Rightarrow> real list \<times> event list" where
  "poll_loop rb 0 joint_angles tr = (joint_angles, tr)"
| "poll_loop rb (Suc n) joint_angles tr =
     (if marker_stale rb tr then
        let ja = nudge_base joint_angles;
            tr1 = tr @ [SetJointPositions ja True (arm_set_joint_positions rb tr ja True),
                        Sleep sleep_time]
        in poll_loop rb n ja tr1
      else (joint_angles, tr))"

text \<open>
  \<^verbatim>\<open>Grasper._find_pose_error\<close>. Writing \<^verbatim>\<open>joint_angles[3]\<close> raises \<^verbatim>\<open>IndexError\<close> when the
  arm reports fewer than four joints; \<^verbatim>\<open>sum(joint_angles[1:3])\<close> is then the sum of the
  entries 1 and 2.
\<close>

definition find_pose_error :: "robot \<Rightarrow> event list \<Rightarrow> (exn + real \<times> real) \<times> event list" where
  "find_pose_error rb tr =
     (let tr1 = tr @ [SetPanTilt 0.0 0.5, Sleep sleep_time];
          joint_angles = arm_get_joint_angles rb tr1
      in if length joint_angles < 4 then (Inl IndexError, tr1)
         else
           let ja = joint_angles[3 := - (joint_angles ! 1 + joint_angles ! 2) + pregrasp_pitch];
               tr2 = tr1 @ [SetJointPositions ja True (arm_set_joint_positions rb tr1 ja True),
                            Sleep (2 * sleep_time)]
           in (case poll_loop rb 5 ja tr2 of
                 (ja1, tr3) \<Rightarrow>
                   (case marker_data rb tr3 of
                      None \<Rightarrow> (Inr (0, 0), tr3)
                    | Some m \<Rightarrow>
                        (case convert_frames rb tr3 (position m) of
                           Inl e \<Rightarrow> (Inl e, tr3)
                         | Inr ar_tag_pose_from_cam \<Rightarrow>
                             (case lookupTransform rb tr3 BASE_FRAME ''ar_tag'' of
                                None \<Rightarrow> (Inl TransformException, tr3)
                              | Some ar_tag_pose_from_model \<Rightarrow>
                                  (Inr (fst ar_tag_pose_from_model - fst ar_tag_pose_from_cam,
                                        fst (snd ar_tag_pose_from_model)
                                          - fst (snd ar_tag_pose_from_cam)),
                                   tr3))))))"

section \<open>Grasp execution\<close>

text \<open>
  \<^verbatim>\<open>Grasper.set_pose\<close>: the retry loop on the remaining number of tries and the variable
  \<^verbatim>\<open>success\<close> (initially 0, that is false).
\<close>

fun set_pose_loop ::
  "robot \<Rightarrow> nat \<Rightarrow> real list \<Rightarrow> real \<Rightarrow> real \<Rightarrow> bool \<Rightarrow> event list \<Rightarrow> bool \<times> event list" where
  "set_pose_loop rb 0 pos pitch roll success tr = (success, tr)"
| "set_pose_loop rb (Suc n) pos pitch roll success tr =
     (let s = arm_set_ee_pose_pitch_roll rb tr pos pitch roll;
          tr1 = tr @ [SetEEPosePitchRoll pos pitch roll s]
      in if s then (s, tr1) else set_pose_loop rb n pos pitch roll s tr1)"

definition set_pose :: "robot \<Rightarrow> event list \<Rightarrow> real list \<Rightarrow> real \<Rightarrow> real \<Rightarrow> bool \<times> event list" where
  "set_pose rb tr pos pitch roll = set_pose_loop rb n_tries pos pitch roll False tr"

text \<open>
  \<^verbatim>\<open>Grasper.grasp\<close>. The result is the returned value (or the exception), the pose list
  as the function leaves it (it is updated in place) and the trace. The body is one
  sequence of stages, each of which returns \<^verbatim>\<open>False\<close> when its pose command fails; it is
  written here as one function per stage, each holding the rest of the body from its
  pose command on: the second pre-grasp pose (\<open>grasp_corrected\<close>), the descent and the
  closing of the gripper (\<open>grasp_descend\<close>), and the final return to the pre-grasp pose
  (\<open>grasp_retract\<close>).
\<close>

definition grasp_retract ::
  "robot \<Rightarrow> event list \<Rightarrow> real list \<Rightarrow> real list \<Rightarrow> real \<Rightarrow> (exn + bool) \<times> real list \<times> event list" where
  "grasp_retract rb tr gp pregrasp_position grasp_angle =
     (case set_pose rb tr pregrasp_position DEFAULT_PITCH grasp_angle of
        (result, tr1) \<Rightarrow>
          if \<not> result then (Inr False, gp, tr1)
          else (Inr True, gp, tr1 @ [Sleep sleep_time]))"

definition grasp_descend ::
  "robot \<Rightarrow> event list \<Rightarrow> real list \<Rightarrow> real list \<Rightarrow> real \<Rightarrow> (exn + bool) \<times> real list \<times> event list" where
  "grasp_descend rb tr gp pregrasp_position grasp_angle =
     (let grasp_position = [gp ! 0, gp ! 1, grasp_height] in
      case set_pose rb tr grasp_position DEFAULT_PITCH grasp_angle of
        (result, tr1) \<Rightarrow>
          if \<not> result then (Inr False, gp, tr1)
          else grasp_retract rb (tr1 @ [Sleep sleep_time, GripperClose, Sleep sleep_time])
                 gp pregrasp_position grasp_angle)"

definition grasp_corrected ::
  "robot \<Rightarrow> event list \<Rightarrow> real list \<Rightarrow> real \<Rightarrow> (exn + bool) \<times> real list \<times> event list" where
  "grasp_corrected rb tr gp grasp_angle =
     (let pregrasp_position = [gp ! 0, gp ! 1, pregrasp_height] in
      case set_pose rb tr pregrasp_position DEFAULT_PITCH grasp_angle of
        (result, tr1) \<Rightarrow>
          if \<not> result then (Inr False, gp, tr1)
          else grasp_descend rb (tr1 @ [Sleep sleep_time]) gp pregrasp_position grasp_angle)"

definition grasp ::
  "robot \<Rightarrow> event list \<Rightarrow> real list \<Rightarrow> (exn + bool) \<times> real list \<times> event list" where
  "grasp rb tr grasp_pose =
     (if length grasp_pose < 2 then (Inl IndexError, grasp_pose, tr)
      else
        let pregrasp_position = [grasp_pose ! 0, grasp_pose ! 1, pregrasp_height] in
        case get_grasp_angle grasp_pose of
          Inl e \<Rightarrow> (Inl e, grasp_pose, tr)
        | Inr grasp_angle \<Rightarrow>
            (case set_pose rb tr pregrasp_position DEFAULT_PITCH 0 of
               (result, tr1) \<Rightarrow>
                 if \<not> result then (Inr False, grasp_pose, tr1)
                 else
                   (case find_pose_error rb (tr1 @ [Sleep sleep_time]) of
                      (Inl e, tr2) \<Rightarrow> (Inl e, grasp_pose, tr2)
                    | (Inr (delta_x, delta_y), tr2) \<Rightarrow>
                        let gp0 = grasp_pose[0 := grasp_pose ! 0 + (delta_x + x_offset)];
                            gp = gp0[1 := gp0 ! 1 + (delta_y + y_offset)]
                        in grasp_corrected rb tr2 gp grasp_angle)))"

text \<open>A pose command that the driver reported as failed.\<close>

fun pose_failed :: "event \<Rightarrow> bool" where
  "pose_failed (SetEEPosePitchRoll pos pitch roll s) = (\<not> s)"
| "pose_failed _ = False"

section \<open>Traces that stop after an exhausted retry budget\<close>

text \<open>
  \<open>halts c evs\<close>: reading \<open>evs\<close> after \<open>c\<close> failed pose commands in a row, no event
  follows the fifth failed pose command of a run. \<open>halting tr t\<close>: the trace \<open>t\<close> extends
  \<open>tr\<close> by such events. \<open>ok_trace tr t\<close>: moreover the extension does not end inside a
  run of failed pose commands.
\<close>

fun halts :: "nat \<Rightarrow> event list \<Rightarrow> bool" where
  "halts c [] = True"
| "halts c (e # es) =
     (if pose_failed e then (if Suc c = 5 then es = [] else halts (Suc c) es) else halts 0 es)"

definition halting :: "event list \<Rightarrow> event list \<Rightarrow> bool" where
  "halting tr t = (\<exists>evs. t = tr @ evs \<and> halts 0 evs)"

definition ok_trace :: "event list \<Rightarrow> event list \<Rightarrow> bool" where
  "ok_trace tr t =
     (\<exists>evs. t = tr @ evs \<and> (\<forall>rest. halts 0 (evs @ rest) = halts 0 rest)
        \<and> (evs = [] \<or> \<not> pose_failed (last evs)))"

section \<open>Concrete robots\<close>

text \<open>
  A robot in front of a flat scene: every depth is 0.5 m in a 480 by 640 map, the
  projection matrix is the identity on its first three columns, both transforms are the
  identity, every command succeeds, the predictor answers row 60, column 220 and angle 0
  in the cropped image, the arm reports five joints at zero, and no marker message has
  been received.
\<close>

definition flat_scene_robot :: robot where
  "flat_scene_robot =
     \<lparr>arm_set_joint_positions = \<lambda>tr ja plan. True,
      arm_get_joint_angles = \<lambda>tr. [0, 0, 0, 0, 0],
      arm_set_ee_pose_pitch_roll = \<lambda>tr pos pitch roll. True,
      camera_get_depth = \<lambda>tr. \<lparr>nrows = 480, ncols = 640, cell = \<lambda>r c. 0.5\<rparr>,
      camera_P = \<lambda>tr. ((1, 0, 0, 0), (0, 1, 0, 0), (0, 0, 1, 0)),
      grasp_model_predict = \<lambda>tr. [60, 220, 0],
      marker_data = \<lambda>tr. None,
      time_now_secs = \<lambda>tr. 100,
      transformPoint = \<lambda>tr target source p. Some p,
      lookupTransform = \<lambda>tr target source. Some (0, 0, 0)\<rparr>"

text \<open>The same robot with a marker message stamped 100 seconds ago.\<close>

definition stale_marker_robot :: robot where
  "stale_marker_robot =
     flat_scene_robot\<lparr>marker_data := \<lambda>tr. Some \<lparr>stamp_secs = 0, position = (1, 2, 3)\<rparr>\<rparr>"

text \<open>The same robot with an arm that refuses every end-effector pose.\<close>

definition stuck_arm_robot :: robot where
  "stuck_arm_robot =
     flat_scene_robot\<lparr>arm_set_ee_pose_pitch_roll := \<lambda>tr pos pitch roll. False\<rparr>"

text \<open>The same robot with an arm whose third retract command is the first to succeed.\<close>

definition slow_arm_robot :: robot where
  "slow_arm_robot = flat_scene_robot\<lparr>arm_set_joint_positions := \<lambda>tr ja plan. 5 \<le> length tr\<rparr>"



section \<open>Properties\<close>

subsection \<open>Depth averaging\<close>


lemma summed_append: "summed (xs @ ys) = summed xs @ summed ys"
  by (induction xs rule: summed.induct) auto

lemma fold_additive:
  fixes a :: "'b \<Rightarrow> real" and n :: "'b \<Rightarrow> nat"
  assumes "\<And>x acc. f x acc = (fst acc + a x, snd acc + n x)"
  shows "fold f xs acc = (fst acc + sum_list (map a xs), snd acc + sum_list (map n xs))"
proof (induction xs arbitrary: acc)
  case Nil
  show ?case by simp
next
  case (Cons x xs)
  have "fold f (x # xs) acc = fold f xs (f x acc)" by simp
  also have "\<dots> = (fst (f x acc) + sum_list (map a xs), snd (f x acc) + sum_list (map n xs))"
    by (rule Cons.IH)
  also have "\<dots> = (fst acc + sum_list (map a (x # xs)), snd acc + sum_list (map n (x # xs)))"
    by (simp add: assms)
  finally show ?case .
qed

lemma z_step_additive:
  "z_step depth pt bb i j acc =
     (fst acc + sum_list (summed [z_sample depth pt bb i j]),
      snd acc + length (summed [z_sample depth pt bb i j]))"
  by (cases "z_sample depth pt bb i j") (simp_all add: z_step_def)

lemma summed_concat:
  "sum_list (map (\<lambda>x. sum_list (summed (g x))) xs) = sum_list (summed (concat (map g xs)))"
  "sum_list (map (\<lambda>x. length (summed (g x))) xs) = length (summed (concat (map g xs)))"
  by (induction xs) (simp_all add: summed_append)

lemma fold_z_step:
  "fold (\<lambda>j. z_step depth pt bb i j) js acc =
     (fst acc + sum_list (summed (map (z_sample depth pt bb i) js)),
      snd acc + length (summed (map (z_sample depth pt bb i) js)))"
proof -
  have "fold (\<lambda>j. z_step depth pt bb i j) js acc =
      (fst acc + sum_list (map (\<lambda>j. sum_list (summed [z_sample depth pt bb i j])) js),
       snd acc + sum_list (map (\<lambda>j. length (summed [z_sample depth pt bb i j])) js))"
    by (rule fold_additive) (rule z_step_additive)
  also have "sum_list (map (\<lambda>j. sum_list (summed [z_sample depth pt bb i j])) js) =
      sum_list (summed (concat (map (\<lambda>j. [z_sample depth pt bb i j]) js)))"
    by (rule summed_concat)
  also have "sum_list (map (\<lambda>j. length (summed [z_sample depth pt bb i j])) js) =
      length (summed (concat (map (\<lambda>j. [z_sample depth pt bb i j]) js)))"
    by (rule summed_concat)
  also have "concat (map (\<lambda>j. [z_sample depth pt bb i j]) js) = map (z_sample depth pt bb i) js"
    by (induction js) simp_all
  finally show ?thesis .
qed

lemma z_loop_window:
  "z_loop depth pt bb =
     (sum_list (summed (z_window depth pt bb)), length (summed (z_window depth pt bb)))"
proof -
  let ?row = "\<lambda>i. map (z_sample depth pt bb i) [0..<bb * 2]"
  have "z_loop depth pt bb =
      (fst (0::real, 0::nat) + sum_list (map (\<lambda>i. sum_list (summed (?row i))) [0..<bb * 2]),
       snd (0::real, 0::nat) + sum_list (map (\<lambda>i. length (summed (?row i))) [0..<bb * 2]))"
    unfolding z_loop_def by (rule fold_additive) (rule fold_z_step)
  then show ?thesis
    by (simp add: summed_concat z_window_def)
qed

lemma get_z_mean_window: "get_z_mean depth pt bb = mean_summed (z_window depth pt bb)"
  by (simp add: get_z_mean_def z_loop_window mean_summed_def)

lemma py_int_of_int: "py_int (of_int r - real bb + real i) = r - int bb + int i"
proof -
  have "of_int r - real bb + real i = (of_int (r - int bb + int i) :: real)" by simp
  then show ?thesis unfolding py_int_def by (simp only: floor_of_int ceiling_of_int if_cancel)
qed

lemma window_offsets:
  "z_window depth (of_int row, of_int col) BB_SIZE =
     concat (map (\<lambda>di. map (\<lambda>dj. depth_at depth (row + di) (col + dj)) [-5..4]) [-5..4])"
proof -
  have idx: "map (\<lambda>i. f (k - 5 + int i)) [0..<10] = map (\<lambda>d. f (k + d)) [-5..4]" for f :: "int \<Rightarrow> 'a" and k
  proof -
    have "[-5..4] = [-5, -4, -3, -2, -1, 0, 1, 2, 3, 4::int]" by (simp add: upto_rec1)
    moreover have "[0..<10] = [0, 1, 2, 3, 4, 5, 6, 7, 8, 9::nat]" by (simp add: upt_rec)
    ultimately show ?thesis by (simp add: add.commute)
  qed
  have "z_window depth (of_int row, of_int col) BB_SIZE =
      concat (map (\<lambda>i. map (\<lambda>j. depth_at depth (row - 5 + int i) (col - 5 + int j)) [0..<10]) [0..<10])"
    using py_int_of_int [of _ 5] by (simp add: z_window_def z_sample_def BB_SIZE_def)
  also have "\<dots> = concat (map (\<lambda>i. map (\<lambda>dj. depth_at depth (row - 5 + int i) (col + dj)) [-5..4]) [0..<10])"
    by (simp only: idx [of "\<lambda>x. depth_at depth _ x" col])
  also have "\<dots> = concat (map (\<lambda>di. map (\<lambda>dj. depth_at depth (row + di) (col + dj)) [-5..4]) [-5..4])"
    by (simp only: idx [of "\<lambda>x. map (\<lambda>dj. depth_at depth x (col + dj)) [-5..4]" row])
  finally show ?thesis .
qed

text \<open>
  C5 (amended). For a pixel with integer coordinates, the depth average is the mean of
  the valid samples read at the row offsets \<open>-5, \<dots>, 4\<close> and the column offsets
  \<open>-5, \<dots>, 4\<close>: a window of 10 by 10 samples, which reaches 5 pixels up and left
  but only 4 pixels down and right.
\<close>

theorem z_mean_window_offsets:
  "get_z_mean depth (of_int row, of_int col) BB_SIZE =
     mean_summed (concat (map (\<lambda>di. map (\<lambda>dj. depth_at depth (row + di) (col + dj)) [-5..4]) [-5..4]))"
  by (simp only: get_z_mean_window window_offsets)

lemma upto_m5_4: "[-5..4] = [-5, -4, -3, -2, -1, 0, 1, 2, 3, 4::int]"
  by (simp add: upto_rec1)

lemma upto_m5_5: "[-5..5] = [-5, -4, -3, -2, -1, 0, 1, 2, 3, 4, 5::int]"
  by (simp add: upto_rec1)

text \<open>
  C5, counterexample. In an 11 by 11 map whose only non-zero depth is 1.0 at row 10,
  column 5, the pixel (5, 5) has a valid sample at row distance 5; the mean over the
  offsets \<open>-5, \<dots>, 5\<close> is 1, the code returns 0.
\<close>

theorem z_mean_window_cex:
  "get_z_mean \<lparr>nrows = 11, ncols = 11, cell = \<lambda>r c. if r = 10 \<and> c = 5 then 1 else 0\<rparr> (5, 5) BB_SIZE = 0
   \<and> mean_summed (concat (map (\<lambda>di. map (\<lambda>dj.
         depth_at \<lparr>nrows = 11, ncols = 11, cell = \<lambda>r c. if r = 10 \<and> c = 5 then 1 else 0\<rparr> (5 + di) (5 + dj))
         [-5..5]) [-5..5])) = 1"
proof -
  let ?d = "\<lparr>nrows = 11, ncols = 11, cell = \<lambda>r c. if r = 10 \<and> c = (5::nat) then 1 else (0::real)\<rparr>"
  have "get_z_mean ?d (of_int 5, of_int 5) BB_SIZE =
      mean_summed (concat (map (\<lambda>di. map (\<lambda>dj. depth_at ?d (5 + di) (5 + dj)) [-5..4]) [-5..4]))"
    by (simp only: get_z_mean_window window_offsets)
  also have "\<dots> = 0"
    unfolding upto_m5_4 by (simp add: depth_at_def axis_index_def mean_summed_def MIN_DEPTH_def)
  finally have a: "get_z_mean ?d (5, 5) BB_SIZE = 0" by simp
  have b: "mean_summed (concat (map (\<lambda>di. map (\<lambda>dj. depth_at ?d (5 + di) (5 + dj)) [-5..5]) [-5..5])) = 1"
    unfolding upto_m5_5 by (simp add: depth_at_def axis_index_def mean_summed_def MIN_DEPTH_def)
  from a b show ?thesis by simp
qed

text \<open>
  C3, counterexample. A depth of exactly 3.0 is not zeroed by the max-depth filter.
\<close>

theorem process_depth_keeps_max_depth:
  "cell (process_depth \<lparr>nrows = 1, ncols = 1, cell = \<lambda>r c. 3\<rparr>) 0 0 = 3 \<and> MAX_DEPTH = 3"
  by (simp add: process_depth_def MAX_DEPTH_def)

text \<open>
  C3 (amended). The max-depth filter keeps a depth of exactly 3.0 and zeroes every depth
  above it; a sample of exactly 3.0 is added to the averaging sum and counted; a sample
  of exactly 0.1 leaves the sum and the count unchanged.
\<close>

theorem depth_boundaries:
  "(cell d1 r1 c1 = MAX_DEPTH \<longrightarrow> cell (process_depth d1) r1 c1 = MAX_DEPTH)
   \<and> (MAX_DEPTH < cell d2 r2 c2 \<longrightarrow> cell (process_depth d2) r2 c2 = 0)
   \<and> (z_sample d3 pt3 bb3 i3 j3 = Some MAX_DEPTH \<longrightarrow>
        z_step d3 pt3 bb3 i3 j3 acc3 = (fst acc3 + MAX_DEPTH, snd acc3 + 1))
   \<and> (z_sample d4 pt4 bb4 i4 j4 = Some MIN_DEPTH \<longrightarrow> z_step d4 pt4 bb4 i4 j4 acc4 = acc4)"
  by (simp add: process_depth_def z_step_def MAX_DEPTH_def MIN_DEPTH_def)

text \<open>An instance of the boundary theorem with each of its hypotheses true.\<close>

theorem depth_boundaries_witness:
  "cell (process_depth \<lparr>nrows = 1, ncols = 1, cell = \<lambda>r c. 3\<rparr>) 0 0 = MAX_DEPTH
   \<and> cell (process_depth \<lparr>nrows = 1, ncols = 1, cell = \<lambda>r c. 4\<rparr>) 0 0 = 0
   \<and> z_step \<lparr>nrows = 1, ncols = 1, cell = \<lambda>r c. 3\<rparr> (5, 5) 5 0 0 (0, 0) = (MAX_DEPTH, 1)
   \<and> z_step \<lparr>nrows = 1, ncols = 1, cell = \<lambda>r c. 0.1\<rparr> (5, 5) 5 0 0 (0, 0) = (0, 0)"
proof -
  have s3: "z_sample \<lparr>nrows = 1, ncols = 1, cell = \<lambda>r c. 3\<rparr> (5, 5) 5 0 0 = Some MAX_DEPTH"
    by (simp add: z_sample_def depth_at_def axis_index_def py_int_def MAX_DEPTH_def)
  have s4: "z_sample \<lparr>nrows = 1, ncols = 1, cell = \<lambda>r c. 0.1\<rparr> (5, 5) 5 0 0 = Some MIN_DEPTH"
    by (simp add: z_sample_def depth_at_def axis_index_def py_int_def MIN_DEPTH_def)
  have h1: "cell \<lparr>nrows = 1, ncols = 1, cell = \<lambda>r c. 3\<rparr> 0 0 = MAX_DEPTH"
    by (simp add: MAX_DEPTH_def)
  have h2: "MAX_DEPTH < cell \<lparr>nrows = 1, ncols = 1, cell = \<lambda>r c. 4\<rparr> 0 0"
    by (simp add: MAX_DEPTH_def)
  show ?thesis
    using depth_boundaries [of "\<lparr>nrows = 1, ncols = 1, cell = \<lambda>r c. 3\<rparr>" 0 0
        "\<lparr>nrows = 1, ncols = 1, cell = \<lambda>r c. 4\<rparr>" 0 0
        "\<lparr>nrows = 1, ncols = 1, cell = \<lambda>r c. 3\<rparr>" "(5, 5)" 5 0 0 "(0, 0)"
        "\<lparr>nrows = 1, ncols = 1, cell = \<lambda>r c. 0.1\<rparr>" "(5, 5)" 5 0 0 "(0, 0)"]
      s3 s4 h1 h2
    by simp
qed


lemma depth_at_wrap:
  assumes "- int (nrows depth) \<le> i" and "- int (ncols depth) \<le> j"
  shows "depth_at depth i j =
     (if int (nrows depth) \<le> i \<or> int (ncols depth) \<le> j then None
      else Some (cell depth (wrap_index (nrows depth) i) (wrap_index (ncols depth) j)))"
  using assms by (simp add: depth_at_def axis_index_def wrap_index_def add.commute)

text \<open>
  C10. For a pixel inside an image of at least 5 rows and 5 columns, no index built by the
  averaging loop is below the lower bound of its axis: every negative row or column index
  is read from the opposite border (\<open>wrap_index\<close>), and only the samples whose row or
  column index is past the upper bound are left out.
\<close>

theorem z_mean_negative_index_wraps:
  assumes "0 \<le> row" and "0 \<le> col" and "5 \<le> nrows depth" and "5 \<le> ncols depth"
  shows "get_z_mean depth (of_int row, of_int col) BB_SIZE =
      mean_summed (concat (map (\<lambda>di. map (\<lambda>dj.
        if int (nrows depth) \<le> row + di \<or> int (ncols depth) \<le> col + dj then None
        else Some (cell depth (wrap_index (nrows depth) (row + di))
                     (wrap_index (ncols depth) (col + dj)))) [-5..4]) [-5..4]))"
proof -
  have cellwise: "depth_at depth (row + di) (col + dj) =
      (if int (nrows depth) \<le> row + di \<or> int (ncols depth) \<le> col + dj then None
       else Some (cell depth (wrap_index (nrows depth) (row + di))
                    (wrap_index (ncols depth) (col + dj))))"
    if "di \<in> set [-5..4]" and "dj \<in> set [-5..4]" for di dj
    using that assms by (intro depth_at_wrap) auto
  have "concat (map (\<lambda>di. map (\<lambda>dj. depth_at depth (row + di) (col + dj)) [-5..4]) [-5..4]) =
      concat (map (\<lambda>di. map (\<lambda>dj.
        if int (nrows depth) \<le> row + di \<or> int (ncols depth) \<le> col + dj then None
        else Some (cell depth (wrap_index (nrows depth) (row + di))
                     (wrap_index (ncols depth) (col + dj)))) [-5..4]) [-5..4])"
    by (intro arg_cong [where f = concat] map_cong refl cellwise)
  then show ?thesis
    by (simp only: get_z_mean_window window_offsets)
qed

text \<open>
  The top-left pixel of a 10 by 10 map whose only non-zero depth is at the bottom-right
  corner: the average is that depth.
\<close>

theorem z_mean_negative_index_wraps_witness:
  "get_z_mean \<lparr>nrows = 10, ncols = 10, cell = \<lambda>r c. if r = 9 \<and> c = 9 then 1 else 0\<rparr> (0, 0) BB_SIZE = 1"
proof -
  let ?d = "\<lparr>nrows = 10, ncols = 10, cell = \<lambda>r c. if r = (9::nat) \<and> c = (9::nat) then 1 else (0::real)\<rparr>"
  have hyps: "(0::int) \<le> 0" "(0::int) \<le> 0" "5 \<le> nrows ?d" "5 \<le> ncols ?d"
    by simp_all
  have "get_z_mean ?d (of_int 0, of_int 0) BB_SIZE = 1"
    using z_mean_negative_index_wraps [OF hyps]
    unfolding upto_m5_4 by (simp add: mean_summed_def MIN_DEPTH_def wrap_index_def)
  then show ?thesis by simp
qed


subsection \<open>Localisation\<close>





lemma summed_member: "Some v \<in> set zs \<Longrightarrow> MIN_DEPTH < v \<Longrightarrow> v \<in> set (summed zs)"
  by (induction zs rule: summed.induct) (auto split: if_splits)

lemma summed_member_iff: "v \<in> set (summed zs) \<longleftrightarrow> Some v \<in> set zs \<and> MIN_DEPTH < v"
  by (induction zs rule: summed.induct) (auto split: if_splits)



lemma z_window_set:
  "set (z_window d pt bb) = {z_sample d pt bb i j | i j. i < bb * 2 \<and> j < bb * 2}"
  by (fastforce simp add: z_window_def)






lemma mean_summed_const:
  assumes "\<And>z. z \<in> set zs \<Longrightarrow> z = None \<or> z = Some v"
    and "Some v \<in> set zs" and "MIN_DEPTH < v"
  shows "mean_summed zs = v"
proof -
  let ?xs = "summed zs"
  have "\<forall>u\<in>set ?xs. u = v"
  proof
    fix u assume "u \<in> set ?xs"
    then have "Some u \<in> set zs" by (simp add: summed_member_iff)
    from assms(1) [OF this] show "u = v" by simp
  qed
  then have rep: "replicate (length ?xs) v = ?xs" by (rule replicate_length_same)
  from summed_member [OF assms(2,3)] have ne: "?xs \<noteq> []" by auto
  have "sum_list ?xs = real (length ?xs) * v"
    using sum_list_replicate [of "length ?xs" v] rep by simp
  with ne show ?thesis by (simp add: mean_summed_def)
qed

lemma z_mean_flat:
  assumes flat: "\<And>r c. cell d r c = v" and v: "MIN_DEPTH < v"
    and px: "0 \<le> row" "row < int (nrows d)" "0 \<le> col" "col < int (ncols d)"
  shows "get_z_mean d (of_int row, of_int col) BB_SIZE = v"
proof -
  let ?win = "z_window d (of_int row, of_int col) BB_SIZE"
  have all: "z = None \<or> z = Some v" if "z \<in> set ?win" for z
    using that flat unfolding z_window_set
    by (auto simp add: z_sample_def depth_at_def split: option.splits)
  have "z_sample d (of_int row, of_int col) BB_SIZE 5 5 = Some v"
    using px flat py_int_of_int [of _ 5 5]
    by (simp add: z_sample_def BB_SIZE_def depth_at_def axis_index_def)
  moreover have "z_sample d (of_int row, of_int col) BB_SIZE 5 5 \<in> set ?win"
    unfolding z_window_set by (intro CollectI exI [of _ 5] conjI) (simp_all add: BB_SIZE_def)
  ultimately have "Some v \<in> set ?win" by simp
  from mean_summed_const [OF all this v] show ?thesis
    by (simp add: get_z_mean_window)
qed

lemma flat_scene_z_mean:
  assumes "0 \<le> row" "row < 480" "0 \<le> col" "col < 640"
  shows "get_z_mean (process_depth \<lparr>nrows = 480, ncols = 640, cell = \<lambda>r c. 0.5\<rparr>)
           (of_int row, of_int col) BB_SIZE = 0.5"
  using assms
  by (intro z_mean_flat) (simp_all add: process_depth_def MAX_DEPTH_def MIN_DEPTH_def)






lemma flat_scene_localize:
  "get_3D_camera flat_scene_robot tr [300, 320] None = Inr (160, 150, 0.5)"
proof -
  have z: "get_z_mean (process_depth (camera_get_depth flat_scene_robot tr)) (300, 320) BB_SIZE = 1 / 2"
    using flat_scene_z_mean [of 300 320]
    by (simp add: flat_scene_robot_def)
  have i: "inv3 (P_n_of (camera_P flat_scene_robot tr) (1 / 2)) = Inr ((1, 0, 0), (0, 1, 0), (0, 0, 2))"
    by (simp add: inv3_def det3_def P_n_of_def Let_def flat_scene_robot_def)
  show ?thesis
    by (simp add: get_3D_camera_def Let_def mat_vec_def z i)
qed



subsection \<open>The grasp descriptor\<close>


text \<open>
  C9 (amended). When the predictor answers \<open>[row, col, angle]\<close> and \<open>compute_grasp\<close>
  returns, the list it returns has three elements, \<open>[x, y, angle]\<close>: the first two
  coordinates of the base-frame point of the shifted pixel, and the angle unchanged. The
  third coordinate of the point is not stored.
\<close>

theorem compute_grasp_descriptor:
  assumes "grasp_model_predict rb tr = [row, col, angle]"
    and "compute_grasp rb tr dims display_grasp = (Inr sg, tr')"
  shows "\<exists>x y z. get_3D rb tr' [row + fst (fst dims), col + fst (snd dims)] None = Inr (x, y, z)
      \<and> sg = [x, y, angle]"
proof -
  let ?tr1 = "if display_grasp then tr @ [SaveImage] else tr"
  let ?pt = "[row + fst (fst dims), col + fst (snd dims)]"
  from assms have tr': "tr' = ?tr1"
    by (auto simp add: compute_grasp_def Let_def split: sum.splits prod.splits if_splits)
  show ?thesis
  proof (cases "get_3D rb ?tr1 ?pt None")
    case (Inl e)
    with assms show ?thesis by (simp add: compute_grasp_def Let_def)
  next
    case (Inr p)
    obtain x y z where p: "p = (x, y, z)" by (cases p) auto
    with Inr assms have "sg = [x, y, angle]"
      by (simp add: compute_grasp_def Let_def)
    with Inr p tr' show ?thesis by simp
  qed
qed

lemma flat_scene_convert_frames: "convert_frames flat_scene_robot tr p = Inr p"
  by (simp add: convert_frames_def flat_scene_robot_def)

lemma flat_scene_get_3D: "get_3D flat_scene_robot tr [300, 320] None = Inr (160, 150, 0.5)"
  by (simp add: get_3D_def flat_scene_localize flat_scene_convert_frames)

lemma flat_scene_compute_grasp:
  "compute_grasp flat_scene_robot [] ((240, 480), (100, 540)) True = (Inr [160, 150, 0], [SaveImage])"
proof -
  have p: "grasp_model_predict flat_scene_robot [] = [60, 220, 0]"
    by (simp add: flat_scene_robot_def)
  show ?thesis
    by (simp add: compute_grasp_def Let_def p flat_scene_get_3D)
qed

text \<open>
  C9, counterexample. In the flat scene the pixel (300, 320) is localised at
  (160, 150, 0.5), and the descriptor returned is \<open>[160, 150, 0]\<close>: three elements,
  without the depth 0.5.
\<close>

theorem compute_grasp_three_elements_cex:
  "grasp_model_predict flat_scene_robot [] = [60, 220, 0]
   \<and> get_3D flat_scene_robot [SaveImage] [300, 320] None = Inr (160, 150, 0.5)
   \<and> compute_grasp flat_scene_robot [] ((240, 480), (100, 540)) True = (Inr [160, 150, 0], [SaveImage])
   \<and> length [160, 150, 0 :: real] = 3"
  using flat_scene_get_3D [of "[SaveImage]"] flat_scene_compute_grasp
  by (simp add: flat_scene_robot_def)

text \<open>
  The run of the flat-scene robot satisfies both hypotheses.
\<close>

theorem compute_grasp_descriptor_witness:
  "\<exists>x y z. get_3D flat_scene_robot [SaveImage] [300, 320] None = Inr (x, y, z)
      \<and> [160, 150, 0] = [x, y, 0]"
proof -
  have p: "grasp_model_predict flat_scene_robot [] = [60, 220, 0]"
    by (simp add: flat_scene_robot_def)
  from compute_grasp_descriptor [OF p flat_scene_compute_grasp] show ?thesis by simp
qed


subsection \<open>Reset and the calibration nudge\<close>


lemma reset_attempt_0: "reset_attempt tr 0 = tr @ [GoHome]"
  by (simp add: reset_attempt_def)

lemma reset_attempt_Suc:
  "reset_attempt tr (Suc j) =
     reset_attempt (tr @ [GoHome, SetJointPositions retract_position False False]) j"
  by (simp add: reset_attempt_def)

lemma reset_loop_answers:
  "0 < n \<Longrightarrow>
   \<exists>k. k < n
     \<and> (\<forall>j<k. \<not> arm_set_joint_positions rb (reset_attempt tr j) retract_position False)
     \<and> (arm_set_joint_positions rb (reset_attempt tr k) retract_position False \<or> k = n - 1)
     \<and> reset_loop rb n s tr =
         (arm_set_joint_positions rb (reset_attempt tr k) retract_position False,
          reset_attempt tr k
            @ [SetJointPositions retract_position False
                 (arm_set_joint_positions rb (reset_attempt tr k) retract_position False)])"
proof (induction n arbitrary: s tr)
  case 0
  then show ?case by simp
next
  case (Suc n)
  let ?a = "\<lambda>t. arm_set_joint_positions rb t retract_position False"
  let ?s = "?a (tr @ [GoHome])"
  let ?tr2 = "tr @ [GoHome, SetJointPositions retract_position False False]"
  show ?case
  proof (cases "?s \<or> n = 0")
    case True
    then have "reset_loop rb (Suc n) s tr =
        (?a (reset_attempt tr 0),
         reset_attempt tr 0 @ [SetJointPositions retract_position False (?a (reset_attempt tr 0))])"
      by (auto simp add: Let_def reset_attempt_0)
    moreover from True have "?a (reset_attempt tr 0) \<or> 0 = Suc n - 1"
      by (auto simp add: reset_attempt_0)
    ultimately show ?thesis by (intro exI [of _ 0]) simp
  next
    case False
    then have ns: "\<not> ?s" and n: "0 < n" by simp_all
    from ns have step: "reset_loop rb (Suc n) s tr = reset_loop rb n False ?tr2"
      by (simp add: Let_def)
    from Suc.IH [OF n, of ?tr2 False] obtain k where
      k: "k < n"
        "\<forall>j<k. \<not> ?a (reset_attempt ?tr2 j)"
        "?a (reset_attempt ?tr2 k) \<or> k = n - 1"
        "reset_loop rb n False ?tr2 =
           (?a (reset_attempt ?tr2 k),
            reset_attempt ?tr2 k @ [SetJointPositions retract_position False (?a (reset_attempt ?tr2 k))])"
      by blast
    have all: "\<forall>j<Suc k. \<not> ?a (reset_attempt tr j)"
    proof (intro allI impI)
      fix j assume "j < Suc k"
      show "\<not> ?a (reset_attempt tr j)"
      proof (cases j)
        case 0
        with ns show ?thesis by (simp add: reset_attempt_0)
      next
        case (Suc j')
        with \<open>j < Suc k\<close> k(2) show ?thesis by (simp add: reset_attempt_Suc)
      qed
    qed
    from k(1) have "Suc k < Suc n" by simp
    moreover from k(3) n have "?a (reset_attempt tr (Suc k)) \<or> Suc k = Suc n - 1"
      by (auto simp add: reset_attempt_Suc)
    moreover from step k(4) have "reset_loop rb (Suc n) s tr =
        (?a (reset_attempt tr (Suc k)),
         reset_attempt tr (Suc k)
           @ [SetJointPositions retract_position False (?a (reset_attempt tr (Suc k)))])"
      by (simp add: reset_attempt_Suc)
    ultimately show ?thesis using all by (intro exI [of _ "Suc k"]) simp
  qed
qed

text \<open>
  C7. Every run of \<open>reset\<close> makes \<open>k + 1\<close> attempts of the home-then-retract
  sequence with \<open>k < 5\<close>: the arm driver refused the retract command of each of the first
  \<open>k\<close> attempts, and the last attempt either succeeded or was the fifth, so the loop
  stops at the first success. The gripper is then opened and the camera pan and tilt are
  reset in every case, and the value returned is the driver's answer to the last retract
  command.
\<close>

theorem reset_trace:
  "\<exists>k. k < 5
     \<and> (\<forall>j<k. \<not> arm_set_joint_positions rb (reset_attempt tr j) retract_position False)
     \<and> (arm_set_joint_positions rb (reset_attempt tr k) retract_position False \<or> k = 4)
     \<and> reset rb tr =
         (arm_set_joint_positions rb (reset_attempt tr k) retract_position False,
          reset_attempt tr k
            @ [SetJointPositions retract_position False
                 (arm_set_joint_positions rb (reset_attempt tr k) retract_position False),
               GripperOpen, SetPan reset_pan, SetTilt reset_tilt])"
proof -
  have "0 < n_tries" by (simp add: n_tries_def)
  from reset_loop_answers [OF this, of rb tr False] obtain k where
    k: "k < n_tries"
      "\<forall>j<k. \<not> arm_set_joint_positions rb (reset_attempt tr j) retract_position False"
      "arm_set_joint_positions rb (reset_attempt tr k) retract_position False \<or> k = n_tries - 1"
      "reset_loop rb n_tries False tr =
         (arm_set_joint_positions rb (reset_attempt tr k) retract_position False,
          reset_attempt tr k
            @ [SetJointPositions retract_position False
                 (arm_set_joint_positions rb (reset_attempt tr k) retract_position False)])"
    by blast
  from k(4) have "reset rb tr =
         (arm_set_joint_positions rb (reset_attempt tr k) retract_position False,
          reset_attempt tr k
            @ [SetJointPositions retract_position False
                 (arm_set_joint_positions rb (reset_attempt tr k) retract_position False),
               GripperOpen, SetPan reset_pan, SetTilt reset_tilt])"
    by (simp add: reset_def)
  with k(1,2,3) show ?thesis
    by (intro exI [of _ k]) (simp add: n_tries_def)
qed

text \<open>
  The arm that accepts the retract command on the third attempt: two failed attempts, the
  successful one, then the gripper and the camera, and the value returned is \<open>True\<close>.
\<close>

theorem reset_trace_witness:
  "reset slow_arm_robot [] =
     (True, [GoHome, SetJointPositions retract_position False False,
             GoHome, SetJointPositions retract_position False False,
             GoHome, SetJointPositions retract_position False True,
             GripperOpen, SetPan reset_pan, SetTilt reset_tilt])"
proof -
  let ?a = "\<lambda>t. arm_set_joint_positions slow_arm_robot t retract_position False"
  let ?F = "SetJointPositions retract_position False False"
  have arm: "?a t \<longleftrightarrow> 5 \<le> length t" for t
    by (simp add: slow_arm_robot_def flat_scene_robot_def)
  have t0: "reset_attempt [] 0 = [GoHome]"
    by (simp add: reset_attempt_def)
  have t1: "reset_attempt [] (Suc 0) = [GoHome, ?F, GoHome]"
    by (simp add: reset_attempt_def)
  have t2: "reset_attempt [] (Suc (Suc 0)) = [GoHome, ?F, GoHome, ?F, GoHome]"
    by (simp add: reset_attempt_def)
  have a0: "\<not> ?a (reset_attempt [] 0)" unfolding t0 arm by simp
  have a1: "\<not> ?a (reset_attempt [] (Suc 0))" unfolding t1 arm by simp
  have a2: "?a (reset_attempt [] (Suc (Suc 0)))" unfolding t2 arm by simp
  from reset_trace [of slow_arm_robot "[]"] obtain k where
    k: "k < 5" "\<forall>j<k. \<not> ?a (reset_attempt [] j)" "?a (reset_attempt [] k) \<or> k = 4"
      "reset slow_arm_robot [] =
         (?a (reset_attempt [] k),
          reset_attempt [] k @ [SetJointPositions retract_position False (?a (reset_attempt [] k)),
               GripperOpen, SetPan reset_pan, SetTilt reset_tilt])"
    by blast
  have le: "k \<le> Suc (Suc 0)"
  proof (rule ccontr)
    assume "\<not> k \<le> Suc (Suc 0)"
    then have "Suc (Suc 0) < k" by simp
    with k(2) have "\<not> ?a (reset_attempt [] (Suc (Suc 0)))" by blast
    with a2 show False by blast
  qed
  have "k = Suc (Suc 0)"
  proof (rule ccontr)
    assume ne: "k \<noteq> Suc (Suc 0)"
    with le have "k = 0 \<or> k = Suc 0" by arith
    with a0 a1 have "\<not> ?a (reset_attempt [] k)" by auto
    with k(3) have "k = 4" by blast
    with le show False by simp
  qed
  with k(4) a2 show ?thesis by (simp only: t2) simp
qed

text \<open>
  C6, counterexample. From a base-joint angle of 1 radian the nudge commands
  \<open>1 - deg2rad 2\<close>, whose absolute value is smaller, not larger.
\<close>

theorem nudge_base_towards_zero_cex:
  "nudge_base [1, 0, 0, 0, 0] = [1 - deg2rad 2, 0, 0, 0, 0] \<and> \<bar>1 - deg2rad 2\<bar> < \<bar>1::real\<bar>"
proof -
  have "0 < pi" "pi < 4" using pi_less_4 by simp_all
  then have "\<bar>1 - deg2rad 2\<bar> < \<bar>1::real\<bar>" by (simp add: deg2rad_def abs_if)
  then show ?thesis by (simp add: nudge_base_def)
qed

text \<open>
  C6 (amended). On a stale or missing read the loop commands the joint angles with the
  base joint moved by 2 degrees towards zero, \<open>old - deg2rad 2 * sgn old\<close>, sleeps and
  polls again; the absolute value of a non-zero angle becomes \<open>\<bar>\<bar>old\<bar> - deg2rad 2\<bar>\<close>
  and an angle of zero is left as it is.
\<close>

theorem poll_nudges_towards_zero:
  assumes "marker_stale rb tr" and "joint_angles \<noteq> []"
  shows "poll_loop rb (Suc n) joint_angles tr =
        poll_loop rb n (nudge_base joint_angles)
          (tr @ [SetJointPositions (nudge_base joint_angles) True
                   (arm_set_joint_positions rb tr (nudge_base joint_angles) True),
                 Sleep sleep_time])
    \<and> nudge_base joint_angles ! 0 = joint_angles ! 0 - deg2rad 2 * sgn (joint_angles ! 0)
    \<and> \<bar>nudge_base joint_angles ! 0\<bar> =
        (if joint_angles ! 0 = 0 then 0 else \<bar>\<bar>joint_angles ! 0\<bar> - deg2rad 2\<bar>)"
proof -
  have v: "nudge_base joint_angles ! 0 = joint_angles ! 0 - deg2rad 2 * sgn (joint_angles ! 0)"
    using assms(2) by (simp add: nudge_base_def)
  have "\<bar>joint_angles ! 0 - deg2rad 2 * sgn (joint_angles ! 0)\<bar> =
      (if joint_angles ! 0 = 0 then 0 else \<bar>\<bar>joint_angles ! 0\<bar> - deg2rad 2\<bar>)"
    by (simp add: sgn_real_def abs_if)
  with v assms(1) show ?thesis by (simp add: Let_def)
qed


text \<open>One stale poll of the flat-scene robot, which has no marker, from a base joint at 1 radian.\<close>

theorem poll_nudges_towards_zero_witness:
  "poll_loop flat_scene_robot (Suc 0) [1, 0, 0, 0, 0] [] =
     ([1 - deg2rad 2, 0, 0, 0, 0],
      [SetJointPositions [1 - deg2rad 2, 0, 0, 0, 0] True True, Sleep sleep_time])
   \<and> \<bar>nudge_base [1, 0, 0, 0, 0] ! 0\<bar> = \<bar>\<bar>1\<bar> - deg2rad 2\<bar>"
proof -
  have h1: "marker_stale flat_scene_robot []"
    by (simp add: marker_stale_def flat_scene_robot_def)
  have h2: "[1, 0, 0, 0, 0::real] \<noteq> []" by simp
  have n: "nudge_base [1, 0, 0, 0, 0] = [1 - deg2rad 2, 0, 0, 0, 0]"
    by (simp add: nudge_base_def)
  from poll_nudges_towards_zero [OF h1 h2, of 0] show ?thesis
    by (simp add: n flat_scene_robot_def)
qed

subsection \<open>Staged execution\<close>

lemma halts_run:
  "halts c evs \<Longrightarrow> c < 5 \<Longrightarrow> k \<le> length evs \<Longrightarrow> 5 \<le> c + k \<Longrightarrow>
   (\<And>j. j < k \<Longrightarrow> pose_failed (evs ! j)) \<Longrightarrow> c + length evs = 5"
proof (induction evs arbitrary: c k)
  case Nil
  then show ?case by simp
next
  case (Cons e es)
  from Cons.prems have k: "0 < k" by simp
  with Cons.prems(5) [of 0] have f: "pose_failed e" by simp
  show ?case
  proof (cases "Suc c = 5")
    case True
    with Cons.prems(1) f have "es = []" by simp
    with True show ?thesis by simp
  next
    case False
    with Cons.prems(1) f have h: "halts (Suc c) es" by simp
    from False Cons.prems(2) have c: "Suc c < 5" by simp
    obtain k' where k': "k = Suc k'" using k by (cases k) auto
    have "\<And>j. j < k' \<Longrightarrow> pose_failed (es ! j)"
      using Cons.prems(5) [of "Suc _"] k' by simp
    from Cons.IH [OF h c _ _ this, of k'] Cons.prems k' show ?thesis by simp
  qed
qed

lemma halts_window:
  "halts c evs \<Longrightarrow> c < 5 \<Longrightarrow> i + 5 \<le> length evs \<Longrightarrow>
   (\<And>k. k < 5 \<Longrightarrow> pose_failed (evs ! (i + k))) \<Longrightarrow> length evs = i + 5"
proof (induction evs arbitrary: c i)
  case Nil
  then show ?case by simp
next
  case (Cons e es)
  show ?case
  proof (cases i)
    case 0
    from halts_run [OF Cons.prems(1,2), of 5] Cons.prems(3,4) 0 show ?thesis by simp
  next
    case (Suc i')
    from Cons.prems(3) Suc have len: "i' + 5 \<le> length es" by simp
    then have ne: "es \<noteq> []" by auto
    have w: "\<And>k. k < 5 \<Longrightarrow> pose_failed (es ! (i' + k))"
      using Cons.prems(4) Suc by simp
    from Cons.prems(1,2) ne obtain c' where "halts c' es" "c' < 5"
      by (auto split: if_splits)
    from Cons.IH [OF this len w] Suc show ?thesis by simp
  qed
qed

lemma halts_fails: "c + k < 5 \<Longrightarrow> pose_failed e \<Longrightarrow> halts c (replicate k e @ rest) = halts (c + k) rest"
  by (induction k arbitrary: c) simp_all

lemma halts_fails5: "pose_failed e \<Longrightarrow> halts 0 (replicate 5 e)"
  by (simp add: eval_nat_numeral)

lemma halts_quiet: "list_all (\<lambda>e. \<not> pose_failed e) q \<Longrightarrow> halts 0 (q @ rest) = halts 0 rest"
  by (induction q) simp_all

lemma set_pose_loop_shape:
  "set_pose_loop rb n pos pitch roll s tr = (res, tr') \<Longrightarrow> 0 < n \<Longrightarrow>
   \<exists>k. tr' = tr @ replicate k (SetEEPosePitchRoll pos pitch roll False)
            @ (if res then [SetEEPosePitchRoll pos pitch roll True] else [])
       \<and> (if res then k < n else k = n)"
proof (induction n arbitrary: s tr)
  case 0
  then show ?case by simp
next
  case (Suc n)
  let ?s = "arm_set_ee_pose_pitch_roll rb tr pos pitch roll"
  let ?tr1 = "tr @ [SetEEPosePitchRoll pos pitch roll ?s]"
  show ?case
  proof (cases ?s)
    case True
    with Suc.prems(1) have "res" "tr' = tr @ replicate 0 (SetEEPosePitchRoll pos pitch roll False)
            @ [SetEEPosePitchRoll pos pitch roll True]"
      by (auto simp add: Let_def)
    then show ?thesis by force
  next
    case False
    with Suc.prems(1) have step: "set_pose_loop rb n pos pitch roll False ?tr1 = (res, tr')"
      by (simp add: Let_def)
    show ?thesis
    proof (cases n)
      case 0
      with step False have "\<not> res" "tr' = tr @ replicate 1 (SetEEPosePitchRoll pos pitch roll False)"
        by auto
      with 0 show ?thesis by force
    next
      case (Suc m)
      then have "0 < n" by simp
      from Suc.IH [OF step this] obtain k where
        k: "tr' = ?tr1 @ replicate k (SetEEPosePitchRoll pos pitch roll False)
            @ (if res then [SetEEPosePitchRoll pos pitch roll True] else [])"
          "if res then k < n else k = n"
        by blast
      from k(1) False have "tr' = tr @ replicate (Suc k) (SetEEPosePitchRoll pos pitch roll False)
            @ (if res then [SetEEPosePitchRoll pos pitch roll True] else [])"
        by simp
      moreover from k(2) have "if res then Suc k < Suc n else Suc k = Suc n" by (simp split: if_splits)
      ultimately show ?thesis by blast
    qed
  qed
qed

lemma poll_loop_quiet:
  "\<exists>q. snd (poll_loop rb n ja tr) = tr @ q \<and> list_all (\<lambda>e. \<not> pose_failed e) q"
proof (induction n arbitrary: ja tr)
  case 0
  show ?case by simp
next
  case (Suc n)
  show ?case
  proof (cases "marker_stale rb tr")
    case True
    let ?ja = "nudge_base ja"
    let ?new = "[SetJointPositions ?ja True (arm_set_joint_positions rb tr ?ja True), Sleep sleep_time]"
    from Suc.IH [of ?ja "tr @ ?new"] obtain q where
      "snd (poll_loop rb n ?ja (tr @ ?new)) = (tr @ ?new) @ q" "list_all (\<lambda>e. \<not> pose_failed e) q"
      by blast
    with True have "snd (poll_loop rb (Suc n) ja tr) = tr @ (?new @ q)
        \<and> list_all (\<lambda>e. \<not> pose_failed e) (?new @ q)"
      by (simp add: Let_def)
    then show ?thesis by blast
  next
    case False
    then show ?thesis by simp
  qed
qed

lemma find_pose_error_quiet:
  "\<exists>q. snd (find_pose_error rb tr) = tr @ q \<and> list_all (\<lambda>e. \<not> pose_failed e) q"
proof -
  let ?tr1 = "tr @ [SetPanTilt 0.0 0.5, Sleep sleep_time]"
  let ?ja0 = "arm_get_joint_angles rb ?tr1"
  let ?ja = "?ja0[3 := - (?ja0 ! 1 + ?ja0 ! 2) + pregrasp_pitch]"
  let ?e2 = "[SetJointPositions ?ja True (arm_set_joint_positions rb ?tr1 ?ja True), Sleep (2 * sleep_time)]"
  show ?thesis
  proof (cases "length ?ja0 < 4")
    case True
    then have "snd (find_pose_error rb tr) = tr @ [SetPanTilt 0.0 0.5, Sleep sleep_time]"
      by (simp add: find_pose_error_def Let_def)
    then show ?thesis by force
  next
    case False
    from poll_loop_quiet [of rb 5 ?ja "?tr1 @ ?e2"] obtain q where
      q: "snd (poll_loop rb 5 ?ja (?tr1 @ ?e2)) = (?tr1 @ ?e2) @ q" "list_all (\<lambda>e. \<not> pose_failed e) q"
      by blast
    have "snd (find_pose_error rb tr) = snd (poll_loop rb 5 ?ja (?tr1 @ ?e2))"
      using False
      by (simp add: find_pose_error_def Let_def split: prod.splits option.splits sum.splits)
    with q have "snd (find_pose_error rb tr) = tr @ ([SetPanTilt 0.0 0.5, Sleep sleep_time] @ ?e2 @ q)
        \<and> list_all (\<lambda>e. \<not> pose_failed e) ([SetPanTilt 0.0 0.5, Sleep sleep_time] @ ?e2 @ q)"
      by simp
    then show ?thesis by blast
  qed
qed


lemma ok_refl: "ok_trace tr tr"
  by (simp add: ok_trace_def)

lemma ok_halting: "ok_trace tr t \<Longrightarrow> halting tr t"
  unfolding ok_trace_def halting_def
proof -
  assume "\<exists>evs. t = tr @ evs \<and> (\<forall>rest. halts 0 (evs @ rest) = halts 0 rest)
      \<and> (evs = [] \<or> \<not> pose_failed (last evs))"
  then obtain evs where e: "t = tr @ evs" "\<forall>rest. halts 0 (evs @ rest) = halts 0 rest" by blast
  from e(2) have "halts 0 (evs @ []) = halts 0 []" by blast
  with e(1) show "\<exists>evs. t = tr @ evs \<and> halts 0 evs" by simp
qed

lemma ok_quiet:
  assumes "ok_trace tr t" and "list_all (\<lambda>e. \<not> pose_failed e) q"
  shows "ok_trace tr (t @ q)"
proof -
  from assms(1) obtain evs where e: "t = tr @ evs" "\<forall>rest. halts 0 (evs @ rest) = halts 0 rest"
    "evs = [] \<or> \<not> pose_failed (last evs)"
    unfolding ok_trace_def by blast
  have "halts 0 ((evs @ q) @ rest) = halts 0 rest" for rest
    using e(2) halts_quiet [OF assms(2)] by simp
  moreover have "evs @ q = [] \<or> \<not> pose_failed (last (evs @ q))"
  proof (cases "q = []")
    case True
    with e(3) show ?thesis by simp
  next
    case False
    then have "last q \<in> set q" by simp
    with assms(2) have "\<not> pose_failed (last q)" by (simp add: list_all_iff)
    with False show ?thesis by simp
  qed
  ultimately show ?thesis unfolding ok_trace_def using e(1) by (intro exI [of _ "evs @ q"]) simp
qed

lemma ok_snoc: "ok_trace tr t \<Longrightarrow> \<not> pose_failed e \<Longrightarrow> ok_trace tr (t @ [e])"
  by (rule ok_quiet) simp_all

lemma ok_snoc3:
  "ok_trace tr t \<Longrightarrow> \<not> pose_failed a \<Longrightarrow> \<not> pose_failed b \<Longrightarrow> \<not> pose_failed c \<Longrightarrow>
   ok_trace tr (t @ [a, b, c])"
  by (rule ok_quiet) simp_all

lemma ok_find_pose_error:
  "find_pose_error rb t = (r, t') \<Longrightarrow> ok_trace tr t \<Longrightarrow> ok_trace tr t'"
  using find_pose_error_quiet [of rb t] ok_quiet [of tr t] by auto

lemma set_pose_shape:
  assumes "set_pose rb t pos pitch roll = (res, t')"
  shows "\<exists>k. t' = t @ replicate k (SetEEPosePitchRoll pos pitch roll False)
            @ (if res then [SetEEPosePitchRoll pos pitch roll True] else [])
       \<and> (if res then k < 5 else k = 5)"
proof -
  from assms have "set_pose_loop rb 5 pos pitch roll False t = (res, t')"
    by (simp add: set_pose_def n_tries_def)
  from set_pose_loop_shape [OF this] show ?thesis by simp
qed

lemma ok_set_pose:
  assumes "set_pose rb t pos pitch roll = (True, t')" and "ok_trace tr t"
  shows "ok_trace tr t'"
proof -
  let ?F = "SetEEPosePitchRoll pos pitch roll False"
  let ?S = "SetEEPosePitchRoll pos pitch roll True"
  from set_pose_shape [OF assms(1)] obtain k where k: "t' = t @ replicate k ?F @ [?S]" "k < 5"
    by auto
  from assms(2) obtain evs where e: "t = tr @ evs" "\<forall>rest. halts 0 (evs @ rest) = halts 0 rest"
    unfolding ok_trace_def by blast
  have "halts 0 ((evs @ replicate k ?F @ [?S]) @ rest) = halts 0 rest" for rest
  proof -
    have "halts 0 ((evs @ replicate k ?F @ [?S]) @ rest) = halts 0 (replicate k ?F @ (?S # rest))"
      using e(2) by simp
    also have "\<dots> = halts (0 + k) (?S # rest)"
      using k(2) by (intro halts_fails) simp_all
    also have "\<dots> = halts 0 rest" by simp
    finally show ?thesis .
  qed
  then show ?thesis
    unfolding ok_trace_def using e(1) k(1)
    by (intro exI [of _ "evs @ replicate k ?F @ [?S]"]) simp
qed

lemma halting_set_pose:
  assumes "set_pose rb t pos pitch roll = (False, t')" and "ok_trace tr t"
  shows "halting tr t'"
proof -
  let ?F = "SetEEPosePitchRoll pos pitch roll False"
  from set_pose_shape [OF assms(1)] have k: "t' = t @ replicate 5 ?F"
    by auto
  from assms(2) obtain evs where e: "t = tr @ evs" "\<forall>rest. halts 0 (evs @ rest) = halts 0 rest"
    unfolding ok_trace_def by blast
  have "halts 0 (evs @ replicate 5 ?F)"
    using e(2) halts_fails5 [of ?F] by simp
  then show ?thesis
    unfolding halting_def using e(1) k by (intro exI [of _ "evs @ replicate 5 ?F"]) simp
qed

lemma grasp_retract_inv:
  assumes "grasp_retract rb t gp0 pp ang = (res, gp, t')" and "ok_trace tr t"
  shows "halting tr t' \<and> (res = Inr False \<or> ok_trace tr t')"
proof -
  obtain r t1 where s: "set_pose rb t pp DEFAULT_PITCH ang = (r, t1)"
    by (cases "set_pose rb t pp DEFAULT_PITCH ang") auto
  show ?thesis
  proof (cases r)
    case True
    with s assms(1) have "res = Inr True" "t' = t1 @ [Sleep sleep_time]"
      by (simp_all add: grasp_retract_def)
    moreover from s True have "ok_trace tr t1" by (intro ok_set_pose [OF _ assms(2)]) simp
    ultimately show ?thesis using ok_snoc ok_halting by simp
  next
    case False
    with s assms(1) have "res = Inr False \<and> t' = t1"
      by (simp add: grasp_retract_def)
    moreover from s False have "halting tr t1" by (intro halting_set_pose [OF _ assms(2)]) simp
    ultimately show ?thesis by simp
  qed
qed

lemma grasp_descend_inv:
  assumes "grasp_descend rb t gp0 pp ang = (res, gp, t')" and "ok_trace tr t"
  shows "halting tr t' \<and> (res = Inr False \<or> ok_trace tr t')"
proof -
  let ?gpos = "[gp0 ! 0, gp0 ! 1, grasp_height]"
  obtain r t1 where s: "set_pose rb t ?gpos DEFAULT_PITCH ang = (r, t1)"
    by (cases "set_pose rb t ?gpos DEFAULT_PITCH ang") auto
  show ?thesis
  proof (cases r)
    case True
    with s assms(1) have
      "grasp_retract rb (t1 @ [Sleep sleep_time, GripperClose, Sleep sleep_time]) gp0 pp ang
         = (res, gp, t')"
      by (simp add: grasp_descend_def Let_def)
    moreover from s True have "ok_trace tr t1" by (intro ok_set_pose [OF _ assms(2)]) simp
    then have "ok_trace tr (t1 @ [Sleep sleep_time, GripperClose, Sleep sleep_time])"
      by (rule ok_snoc3) simp_all
    ultimately show ?thesis by (rule grasp_retract_inv)
  next
    case False
    with s assms(1) have "res = Inr False \<and> t' = t1"
      by (simp add: grasp_descend_def Let_def)
    moreover from s False have "halting tr t1" by (intro halting_set_pose [OF _ assms(2)]) simp
    ultimately show ?thesis by simp
  qed
qed

lemma grasp_corrected_inv:
  assumes "grasp_corrected rb t gp0 ang = (res, gp, t')" and "ok_trace tr t"
  shows "halting tr t' \<and> (res = Inr False \<or> ok_trace tr t')"
proof -
  let ?pp = "[gp0 ! 0, gp0 ! 1, pregrasp_height]"
  obtain r t1 where s: "set_pose rb t ?pp DEFAULT_PITCH ang = (r, t1)"
    by (cases "set_pose rb t ?pp DEFAULT_PITCH ang") auto
  show ?thesis
  proof (cases r)
    case True
    with s assms(1) have
      "grasp_descend rb (t1 @ [Sleep sleep_time]) gp0 ?pp ang = (res, gp, t')"
      by (simp add: grasp_corrected_def Let_def)
    moreover from s True have "ok_trace tr t1" by (intro ok_set_pose [OF _ assms(2)]) simp
    then have "ok_trace tr (t1 @ [Sleep sleep_time])"
      by (rule ok_snoc) simp
    ultimately show ?thesis by (rule grasp_descend_inv)
  next
    case False
    with s assms(1) have "res = Inr False \<and> t' = t1"
      by (simp add: grasp_corrected_def Let_def)
    moreover from s False have "halting tr t1" by (intro halting_set_pose [OF _ assms(2)]) simp
    ultimately show ?thesis by simp
  qed
qed

lemma grasp_inv:
  assumes "grasp rb tr grasp_pose = (res, gp, t')"
  shows "halting tr t' \<and> (res = Inr False \<or> ok_trace tr t')"
proof (cases "length grasp_pose < 2")
  case True
  with assms have "t' = tr" by (simp add: grasp_def)
  then show ?thesis using ok_refl ok_halting by simp
next
  case long: False
  show ?thesis
  proof (cases "get_grasp_angle grasp_pose")
    case (Inl e)
    with long assms have "t' = tr" by (simp add: grasp_def)
    then show ?thesis using ok_refl ok_halting by simp
  next
    case (Inr ang)
    let ?pp = "[grasp_pose ! 0, grasp_pose ! 1, pregrasp_height]"
    obtain r t1 where s: "set_pose rb tr ?pp DEFAULT_PITCH 0 = (r, t1)"
      by (cases "set_pose rb tr ?pp DEFAULT_PITCH 0") auto
    show ?thesis
    proof (cases r)
      case False
      with s long Inr assms have "res = Inr False \<and> t' = t1"
        by (simp add: grasp_def Let_def)
      moreover from s False have "halting tr t1" by (intro halting_set_pose [OF _ ok_refl]) simp
      ultimately show ?thesis by simp
    next
      case True
      from s True have "ok_trace tr t1" by (intro ok_set_pose [OF _ ok_refl]) simp
      then have ok1: "ok_trace tr (t1 @ [Sleep sleep_time])" by (rule ok_snoc) simp
      obtain d t2 where f: "find_pose_error rb (t1 @ [Sleep sleep_time]) = (d, t2)"
        by (cases "find_pose_error rb (t1 @ [Sleep sleep_time])") auto
      from ok_find_pose_error [OF f ok1] have ok2: "ok_trace tr t2" .
      show ?thesis
      proof (cases d)
        case (Inl e)
        with s True long Inr f assms have "res = Inl e" "t' = t2"
          by (simp_all add: grasp_def Let_def)
        with ok2 ok_halting show ?thesis by simp
      next
        case (Inr dxy)
        obtain dx dy where dxy: "dxy = (dx, dy)" by (cases dxy) auto
        let ?gp0 = "grasp_pose[0 := grasp_pose ! 0 + (dx + x_offset)]"
        let ?gp = "?gp0[1 := ?gp0 ! 1 + (dy + y_offset)]"
        from s True long \<open>get_grasp_angle grasp_pose = Inr ang\<close> f Inr dxy assms
        have "grasp_corrected rb t2 ?gp ang = (res, gp, t')"
          by (simp add: grasp_def Let_def)
        from grasp_corrected_inv [OF this ok2] show ?thesis .
      qed
    qed
  qed
qed

text \<open>
  C8. Let \<open>evs\<close> be the events of one run of \<open>grasp\<close>. Two pose commands of different
  stages are always separated by a sleep, so five failed pose commands in a row are the
  five failed tries of one stage. Wherever they occur in \<open>evs\<close>, they are its last five
  events (nothing is commanded afterwards) and the run returns \<^verbatim>\<open>False\<close>.
\<close>

theorem grasp_stops_after_exhausted_retries:
  assumes "snd (snd (grasp rb tr grasp_pose)) = tr @ evs"
    and "i + 5 \<le> length evs"
    and "\<And>k. k < 5 \<Longrightarrow> pose_failed (evs ! (i + k))"
  shows "fst (grasp rb tr grasp_pose) = Inr False \<and> length evs = i + 5"
proof -
  obtain res gp t' where g: "grasp rb tr grasp_pose = (res, gp, t')"
    by (cases "grasp rb tr grasp_pose") auto
  with assms(1) have t': "t' = tr @ evs" by simp
  from grasp_inv [OF g] t' have h: "halts 0 evs" by (auto simp add: halting_def)
  from halts_window [OF h _ assms(2,3)] have len: "length evs = i + 5" by simp
  then have ne: "evs \<noteq> []" by auto
  have "last evs = evs ! (i + 4)" using len ne by (simp add: last_conv_nth add.commute)
  with assms(3) [of 4] have bad: "pose_failed (last evs)" by simp
  have "res = Inr False"
  proof (rule ccontr)
    assume "res \<noteq> Inr False"
    with grasp_inv [OF g] have "ok_trace tr t'" by simp
    with t' have "evs = [] \<or> \<not> pose_failed (last evs)" by (auto simp add: ok_trace_def)
    with ne bad show False by simp
  qed
  with g len show ?thesis by simp
qed


text \<open>
  The robot whose arm refuses every pose: the run consists of the five failed tries of
  the first pre-grasp pose.
\<close>

theorem grasp_stops_after_exhausted_retries_witness:
  "fst (grasp stuck_arm_robot [] [1, 0, 0]) = Inr False
   \<and> length (replicate 5 (SetEEPosePitchRoll [1, 0, pregrasp_height] DEFAULT_PITCH 0 False)) = 0 + 5"
proof -
  let ?evs = "replicate 5 (SetEEPosePitchRoll [1, 0, pregrasp_height] DEFAULT_PITCH 0 False)"
  have a: "arctan2 0 1 = 0" by (simp add: arctan2_def)
  have g: "get_grasp_angle [1, 0, 0] = Inr 0"
    by (simp add: get_grasp_angle_def Let_def a)
  have sp: "set_pose stuck_arm_robot [] [1, 0, pregrasp_height] DEFAULT_PITCH 0 = (False, ?evs)"
    by (simp add: set_pose_def n_tries_def eval_nat_numeral stuck_arm_robot_def flat_scene_robot_def)
  have h1: "snd (snd (grasp stuck_arm_robot [] [1, 0, 0])) = [] @ ?evs"
    by (simp add: grasp_def g sp)
  have h2: "0 + 5 \<le> length ?evs" by simp
  have h3: "\<And>k. k < 5 \<Longrightarrow> pose_failed (?evs ! (0 + k))" by simp
  from grasp_stops_after_exhausted_retries [OF h1 h2 h3] show ?thesis .
qed

subsection \<open>Calibration fallback\<close>

lemma set_pose_first:
  assumes "set_pose rb t pos pitch roll = (r, t1)"
  shows "\<exists>s more. t1 = t @ SetEEPosePitchRoll pos pitch roll s # more"
proof -
  from set_pose_shape [OF assms] obtain k where
    k: "t1 = t @ replicate k (SetEEPosePitchRoll pos pitch roll False)
            @ (if r then [SetEEPosePitchRoll pos pitch roll True] else [])"
      "if r then k < 5 else k = 5"
    by blast
  show ?thesis
  proof (cases k)
    case 0
    with k have "t1 = t @ SetEEPosePitchRoll pos pitch roll True # []"
      by (simp split: if_splits)
    then show ?thesis by blast
  next
    case (Suc m)
    with k(1) have "t1 = t @ SetEEPosePitchRoll pos pitch roll False
        # (replicate m (SetEEPosePitchRoll pos pitch roll False)
            @ (if r then [SetEEPosePitchRoll pos pitch roll True] else []))"
      by simp
    then show ?thesis by blast
  qed
qed

lemma grasp_corrected_first:
  assumes "grasp_corrected rb t gp0 ang = (res, gp, t')"
  shows "\<exists>s rest. t' = t @ SetEEPosePitchRoll [gp0 ! 0, gp0 ! 1, pregrasp_height] DEFAULT_PITCH ang s # rest"
proof -
  let ?pp = "[gp0 ! 0, gp0 ! 1, pregrasp_height]"
  obtain r t1 where s: "set_pose rb t ?pp DEFAULT_PITCH ang = (r, t1)"
    by (cases "set_pose rb t ?pp DEFAULT_PITCH ang") auto
  from set_pose_first [OF s] obtain s0 more where
    t1: "t1 = t @ SetEEPosePitchRoll ?pp DEFAULT_PITCH ang s0 # more"
    by blast
  show ?thesis
  proof (cases r)
    case False
    with s assms have "t' = t1" by (simp add: grasp_corrected_def Let_def)
    with t1 show ?thesis by blast
  next
    case True
    with s assms have "grasp_descend rb (t1 @ [Sleep sleep_time]) gp0 ?pp ang = (res, gp, t')"
      by (simp add: grasp_corrected_def Let_def)
    from grasp_descend_inv [OF this ok_refl] obtain evs where
      "t' = (t1 @ [Sleep sleep_time]) @ evs"
      by (auto simp add: halting_def)
    with t1 have "t' = t @ SetEEPosePitchRoll ?pp DEFAULT_PITCH ang s0
        # (more @ [Sleep sleep_time] @ evs)"
      by simp
    then show ?thesis by blast
  qed
qed

lemma find_pose_error_absent:
  assumes "4 \<le> length (arm_get_joint_angles rb (tr0 @ [SetPanTilt 0.0 0.5, Sleep sleep_time]))"
    and "marker_data rb (snd (find_pose_error rb tr0)) = None"
  shows "fst (find_pose_error rb tr0) = Inr (0, 0)"
proof -
  let ?tr1 = "tr0 @ [SetPanTilt 0.0 0.5, Sleep sleep_time]"
  let ?ja0 = "arm_get_joint_angles rb ?tr1"
  let ?ja = "?ja0[3 := - (?ja0 ! 1 + ?ja0 ! 2) + pregrasp_pitch]"
  let ?tr2 = "?tr1 @ [SetJointPositions ?ja True (arm_set_joint_positions rb ?tr1 ?ja True),
                      Sleep (2 * sleep_time)]"
  obtain ja1 tr3 where p: "poll_loop rb 5 ?ja ?tr2 = (ja1, tr3)"
    by (cases "poll_loop rb 5 ?ja ?tr2") auto
  from assms(1) have long: "\<not> length ?ja0 < 4" by simp
  have "snd (find_pose_error rb tr0) = tr3"
    using long p
    by (simp add: find_pose_error_def Let_def split: option.splits sum.splits)
  with assms(2) have "marker_data rb tr3 = None" by simp
  with long p show ?thesis
    by (simp add: find_pose_error_def Let_def)
qed

text \<open>
  The path that works: when the marker data is absent (no marker message was ever
  received) at the end of the polling, the estimator returns the drift \<open>(0, 0)\<close>; and
  when the estimator returns \<open>(0, 0)\<close> inside a grasp attempt, the attempt goes on with
  the second pre-grasp pose, at the target moved by the two fixed offsets only.
\<close>

lemma absent_marker_zero_correction:
  "(4 \<le> length (arm_get_joint_angles rb (tr0 @ [SetPanTilt 0.0 0.5, Sleep sleep_time]))
      \<and> marker_data rb (snd (find_pose_error rb tr0)) = None
    \<longrightarrow> fst (find_pose_error rb tr0) = Inr (0, 0))
   \<and> (get_grasp_angle grasp_pose = Inr grasp_angle
      \<and> set_pose rb tr [grasp_pose ! 0, grasp_pose ! 1, pregrasp_height] DEFAULT_PITCH 0 = (True, tr1)
      \<and> find_pose_error rb (tr1 @ [Sleep sleep_time]) = (Inr (0, 0), tr2)
    \<longrightarrow> (\<exists>s rest. snd (snd (grasp rb tr grasp_pose)) =
          tr2 @ SetEEPosePitchRoll
                  [grasp_pose ! 0 + (0 + x_offset), grasp_pose ! 1 + (0 + y_offset), pregrasp_height]
                  DEFAULT_PITCH grasp_angle s # rest))"
proof (intro conjI impI)
  assume "4 \<le> length (arm_get_joint_angles rb (tr0 @ [SetPanTilt 0.0 0.5, Sleep sleep_time]))
      \<and> marker_data rb (snd (find_pose_error rb tr0)) = None"
  then show "fst (find_pose_error rb tr0) = Inr (0, 0)"
    using find_pose_error_absent by blast
next
  assume a: "get_grasp_angle grasp_pose = Inr grasp_angle
      \<and> set_pose rb tr [grasp_pose ! 0, grasp_pose ! 1, pregrasp_height] DEFAULT_PITCH 0 = (True, tr1)
      \<and> find_pose_error rb (tr1 @ [Sleep sleep_time]) = (Inr (0, 0), tr2)"
  let ?gp0 = "grasp_pose[0 := grasp_pose ! 0 + (0 + x_offset)]"
  let ?gp = "?gp0[1 := ?gp0 ! 1 + (0 + y_offset)]"
  from a have long: "3 \<le> length grasp_pose"
    by (auto simp add: get_grasp_angle_def split: if_splits)
  obtain res gp t' where g: "grasp_corrected rb tr2 ?gp grasp_angle = (res, gp, t')"
    by (cases "grasp_corrected rb tr2 ?gp grasp_angle") auto
  from a long g have "grasp rb tr grasp_pose = (res, gp, t')"
    by (simp add: grasp_def Let_def)
  moreover from grasp_corrected_first [OF g] obtain s rest where
    "t' = tr2 @ SetEEPosePitchRoll [?gp ! 0, ?gp ! 1, pregrasp_height] DEFAULT_PITCH grasp_angle s # rest"
    by blast
  moreover have "?gp ! 0 = grasp_pose ! 0 + (0 + x_offset)"
    "?gp ! 1 = grasp_pose ! 1 + (0 + y_offset)"
  proof -
    from long have "0 < length grasp_pose" and "1 < length grasp_pose" by linarith+
    then show "?gp ! 0 = grasp_pose ! 0 + (0 + x_offset)"
      and "?gp ! 1 = grasp_pose ! 1 + (0 + y_offset)"
      by simp_all
  qed
  ultimately have "snd (snd (grasp rb tr grasp_pose)) =
      tr2 @ SetEEPosePitchRoll
              [grasp_pose ! 0 + (0 + x_offset), grasp_pose ! 1 + (0 + y_offset), pregrasp_height]
              DEFAULT_PITCH grasp_angle s # rest"
    by simp
  then show "\<exists>s rest. snd (snd (grasp rb tr grasp_pose)) =
      tr2 @ SetEEPosePitchRoll
              [grasp_pose ! 0 + (0 + x_offset), grasp_pose ! 1 + (0 + y_offset), pregrasp_height]
              DEFAULT_PITCH grasp_angle s # rest"
    by blast
qed

text \<open>
  C2. The claim is that the estimator returns the drift \<open>(0, 0)\<close> whenever none of its
  five polls sees a fresh marker message. With a marker message that is 100 seconds old
  every poll is stale: the loop nudges the base joint and sleeps five times. The test
  after the loop only asks whether a message exists, so the estimator goes on with the
  stale message and returns the difference computed from it, \<open>(-1, -2)\<close>.
\<close>

theorem find_pose_error_stale_marker:
  "(\<forall>tr. marker_stale stale_marker_robot tr)
   \<and> find_pose_error stale_marker_robot [] =
       (Inr (- 1, - 2),
        [SetPanTilt 0 0.5, Sleep sleep_time,
         SetJointPositions [0, 0, 0, pregrasp_pitch, 0] True True, Sleep (2 * sleep_time),
         SetJointPositions [0, 0, 0, pregrasp_pitch, 0] True True, Sleep sleep_time,
         SetJointPositions [0, 0, 0, pregrasp_pitch, 0] True True, Sleep sleep_time,
         SetJointPositions [0, 0, 0, pregrasp_pitch, 0] True True, Sleep sleep_time,
         SetJointPositions [0, 0, 0, pregrasp_pitch, 0] True True, Sleep sleep_time,
         SetJointPositions [0, 0, 0, pregrasp_pitch, 0] True True, Sleep sleep_time])"
proof -
  have "marker_stale stale_marker_robot tr" for tr
    by (simp add: marker_stale_def stale_marker_robot_def flat_scene_robot_def)
  moreover have "find_pose_error stale_marker_robot [] =
       (Inr (- 1, - 2),
        [SetPanTilt 0 0.5, Sleep sleep_time,
         SetJointPositions [0, 0, 0, pregrasp_pitch, 0] True True, Sleep (2 * sleep_time),
         SetJointPositions [0, 0, 0, pregrasp_pitch, 0] True True, Sleep sleep_time,
         SetJointPositions [0, 0, 0, pregrasp_pitch, 0] True True, Sleep sleep_time,
         SetJointPositions [0, 0, 0, pregrasp_pitch, 0] True True, Sleep sleep_time,
         SetJointPositions [0, 0, 0, pregrasp_pitch, 0] True True, Sleep sleep_time,
         SetJointPositions [0, 0, 0, pregrasp_pitch, 0] True True, Sleep sleep_time])"
    by (simp add: find_pose_error_def Let_def eval_nat_numeral marker_stale_def nudge_base_def
        convert_frames_def stale_marker_robot_def flat_scene_robot_def)
  ultimately show ?thesis by simp
qed

text \<open>The flat-scene robot has no marker; its grasp of the pose \<open>(1, 0, 0)\<close> goes on.\<close>

lemma absent_marker_zero_correction_instance:
  "fst (find_pose_error flat_scene_robot []) = Inr (0, 0)
   \<and> (\<exists>s rest. snd (snd (grasp flat_scene_robot [] [1, 0, 0])) =
         snd (find_pose_error flat_scene_robot
                ([SetEEPosePitchRoll [1, 0, pregrasp_height] DEFAULT_PITCH 0 True]
                   @ [Sleep sleep_time]))
         @ SetEEPosePitchRoll [1 + (0 + x_offset), 0 + (0 + y_offset), pregrasp_height]
             DEFAULT_PITCH 0 s # rest)"
proof -
  let ?tr1 = "[SetEEPosePitchRoll [1, 0, pregrasp_height] DEFAULT_PITCH 0 True]"
  let ?tr2 = "snd (find_pose_error flat_scene_robot (?tr1 @ [Sleep sleep_time]))"
  have joints: "4 \<le> length (arm_get_joint_angles flat_scene_robot h)" for h
    by (simp add: flat_scene_robot_def)
  have absent: "marker_data flat_scene_robot h = None" for h
    by (simp add: flat_scene_robot_def)
  have a: "arctan2 0 1 = 0" by (simp add: arctan2_def)
  have ang: "get_grasp_angle [1, 0, 0] = Inr 0"
    by (simp add: get_grasp_angle_def Let_def a)
  have sp: "set_pose flat_scene_robot [] [[1, 0, 0] ! 0, [1, 0, 0] ! 1, pregrasp_height] DEFAULT_PITCH 0
      = (True, ?tr1)"
    by (simp add: set_pose_def n_tries_def eval_nat_numeral flat_scene_robot_def)
  note th = absent_marker_zero_correction [of flat_scene_robot _ "[1, 0, 0]" 0 "[]" ?tr1 ?tr2]
  from th [of "[]"] joints absent have one: "fst (find_pose_error flat_scene_robot []) = Inr (0, 0)"
    by blast
  from th [of "?tr1 @ [Sleep sleep_time]"] joints absent
  have "fst (find_pose_error flat_scene_robot (?tr1 @ [Sleep sleep_time])) = Inr (0, 0)"
    by blast
  then have fpe: "find_pose_error flat_scene_robot (?tr1 @ [Sleep sleep_time]) = (Inr (0, 0), ?tr2)"
    by (simp add: prod_eq_iff)
  from th [of "[]"] ang sp fpe
  have "\<exists>s rest. snd (snd (grasp flat_scene_robot [] [1, 0, 0])) =
         ?tr2 @ SetEEPosePitchRoll [[1, 0, 0] ! 0 + (0 + x_offset), [1, 0, 0] ! 1 + (0 + y_offset),
                   pregrasp_height] DEFAULT_PITCH 0 s # rest"
    by blast
  with one show ?thesis by simp
qed

subsection \<open>Grasp angle\<close>

text \<open>
  C1. The claim is that the value returned by \<open>get_grasp_angle\<close> always lies in
  \<open>[-pi/2, pi/2]\<close>. At the pose \<open>(1, 0, -2)\<close> the sum of the angles is \<open>-2\<close>, below
  \<open>-pi/2\<close>; the lower branch adds \<open>2 * pi\<close>, and the returned value \<open>2 * pi - 2\<close> is
  above \<open>pi/2\<close>.
\<close>

theorem get_grasp_angle_above_range:
  "get_grasp_angle [1, 0, - 2] = Inr (2 * pi - 2) \<and> pi / 2 < 2 * pi - 2"
proof -
  have lo: "2 \<le> pi" by (rule pi_ge_two)
  have hi: "pi < 4" by (rule pi_less_4)
  have "arctan2 0 1 = 0" by (simp add: arctan2_def)
  then have "get_grasp_angle [1, 0, - 2] = Inr (2 * pi - 2)"
    using lo hi by (simp add: get_grasp_angle_def Let_def)
  moreover have "pi / 2 < 2 * pi - 2" using lo by simp
  ultimately show ?thesis by simp
qed

end
